theory Spec2Isabelle
  imports Main
begin

section \<open>Catalogs\<close>

text \<open>
  The enumerations of \<^verbatim>\<open>logicwriter_chronosanity.py\<close>. \<open>all_KeyItems\<close> is the
  iteration order of the Python enum (its definition order; no two members share a value,
  so the iteration yields all fifteen).
\<close>

datatype KeyItems =
  tomapop | hilt | blade | dreamstone | rubyknife | gatekey | jerky | pendant
  | moonstone | prismshard | grandleon | clone | ctrigger | heromedal | roboribbon

definition all_KeyItems :: "KeyItems list" where
  "all_KeyItems =
     [tomapop, hilt, blade, dreamstone, rubyknife, gatekey, jerky, pendant,
      moonstone, prismshard, grandleon, clone, ctrigger, heromedal, roboribbon]"

datatype Characters = Crono | Marle | Lucca | Robo | Frog | Ayla | Magus

datatype LootTiers = Mid | MidHigh | High

text \<open>The Python exceptions the modelled code can raise.\<close>

datatype error = KeyError | IndexError | ValueError | NameError | RecursionError

text \<open>Sequencing of calls that may raise: the first exception ends the run.\<close>

definition bind_err :: "error + 'a \<Rightarrow> ('a \<Rightarrow> error + 'b) \<Rightarrow> error + 'b" where
  "bind_err m f = (case m of Inl e \<Rightarrow> Inl e | Inr x \<Rightarrow> f x)"

text \<open>\<^verbatim>\<open>Characters(id)\<close>: the enum member with that value, or ValueError.\<close>

definition Characters_of :: "int \<Rightarrow> error + Characters" where
  "Characters_of i =
     (if i = 0 then Inr Crono else if i = 1 then Inr Marle else if i = 2 then Inr Lucca
      else if i = 3 then Inr Robo else if i = 4 then Inr Frog else if i = 5 then Inr Ayla
      else if i = 6 then Inr Magus else Inl ValueError)"

section \<open>The Game class\<close>

text \<open>
  \<open>charLocations\<close> is the dictionary produced by the character writer: location name
  to character data, whose first entry is the character id.
\<close>

record Game =
  characters :: "Characters set"
  keyItems :: "KeyItems set"
  earlyPendant :: bool
  lockedChars :: bool
  charLocations :: "string \<rightharpoonup> int list"

definition Game_init :: "(string \<rightharpoonup> int list) \<Rightarrow> Game" where
  "Game_init cl =
     \<lparr>characters = {}, keyItems = {}, earlyPendant = False, lockedChars = False,
      charLocations = cl\<rparr>"

definition getKeyItemCount :: "Game \<Rightarrow> nat" where
  "getKeyItemCount g = card (keyItems g)"

definition setEarlyPendant :: "Game \<Rightarrow> bool \<Rightarrow> Game" where
  "setEarlyPendant g pflag = g\<lparr>earlyPendant := pflag\<rparr>"

definition setLockedCharacters :: "Game \<Rightarrow> bool \<Rightarrow> Game" where
  "setLockedCharacters g cflag = g\<lparr>lockedChars := cflag\<rparr>"

definition hasCharacter :: "Game \<Rightarrow> Characters \<Rightarrow> bool" where
  "hasCharacter g c = (c \<in> characters g)"

definition addCharacter :: "Game \<Rightarrow> Characters \<Rightarrow> Game" where
  "addCharacter g c = g\<lparr>characters := insert c (characters g)\<rparr>"

definition removeCharacter :: "Game \<Rightarrow> Characters \<Rightarrow> Game" where
  "removeCharacter g c = g\<lparr>characters := characters g - {c}\<rparr>"

definition hasKeyItem :: "Game \<Rightarrow> KeyItems \<Rightarrow> bool" where
  "hasKeyItem g k = (k \<in> keyItems g)"

definition addKeyItem :: "Game \<Rightarrow> KeyItems \<Rightarrow> Game" where
  "addKeyItem g k = g\<lparr>keyItems := insert k (keyItems g)\<rparr>"

definition removeKeyItem :: "Game \<Rightarrow> KeyItems \<Rightarrow> Game" where
  "removeKeyItem g k = g\<lparr>keyItems := keyItems g - {k}\<rparr>"

subsection \<open>Logic convenience functions\<close>

definition canAccessFuture :: "Game \<Rightarrow> bool" where
  "canAccessFuture g = hasKeyItem g pendant"

definition canAccessPrehistory :: "Game \<Rightarrow> bool" where
  "canAccessPrehistory g = hasKeyItem g gatekey"

definition canAccessDactylCharacter :: "Game \<Rightarrow> bool" where
  "canAccessDactylCharacter g =
     (canAccessPrehistory g \<and> ((\<not> lockedChars g) \<or> hasKeyItem g dreamstone))"

definition canAccessTyranoLair :: "Game \<Rightarrow> bool" where
  "canAccessTyranoLair g = (canAccessPrehistory g \<and> hasKeyItem g dreamstone)"

definition hasMasamune :: "Game \<Rightarrow> bool" where
  "hasMasamune g = (hasKeyItem g hilt \<and> hasKeyItem g blade)"

definition canAccessMagusCastle :: "Game \<Rightarrow> bool" where
  "canAccessMagusCastle g = (hasMasamune g \<and> hasCharacter g Frog)"

definition canAccessDarkAges :: "Game \<Rightarrow> bool" where
  "canAccessDarkAges g = (canAccessTyranoLair g \<or> canAccessMagusCastle g)"

definition canAccessOceanPalace :: "Game \<Rightarrow> bool" where
  "canAccessOceanPalace g = (canAccessDarkAges g \<and> hasKeyItem g rubyknife)"

definition canAccessBlackOmen :: "Game \<Rightarrow> bool" where
  "canAccessBlackOmen g =
     (canAccessFuture g \<and> hasKeyItem g clone \<and> hasKeyItem g ctrigger)"

definition canGetSunstone :: "Game \<Rightarrow> bool" where
  "canGetSunstone g =
     (canAccessFuture g \<and> canAccessPrehistory g \<and> hasKeyItem g moonstone)"

definition canAccessKingsTrial :: "Game \<Rightarrow> bool" where
  "canAccessKingsTrial g = (hasCharacter g Marle \<and> hasKeyItem g prismshard)"

definition canAccessMelchiorsRefinements :: "Game \<Rightarrow> bool" where
  "canAccessMelchiorsRefinements g = (canAccessKingsTrial g \<and> canGetSunstone g)"

definition canAccessGiantsClaw :: "Game \<Rightarrow> bool" where
  "canAccessGiantsClaw g = hasKeyItem g tomapop"

definition canAccessRuins :: "Game \<Rightarrow> bool" where
  "canAccessRuins g = hasKeyItem g grandleon"

definition canAccessSealedChests :: "Game \<Rightarrow> bool" where
  "canAccessSealedChests g =
     (hasKeyItem g pendant \<and> (earlyPendant g \<or> canAccessDarkAges g))"

definition canAccessBurrowItem :: "Game \<Rightarrow> bool" where
  "canAccessBurrowItem g = hasKeyItem g heromedal"

definition canAccessFionasShrine :: "Game \<Rightarrow> bool" where
  "canAccessFionasShrine g = hasCharacter g Robo"

subsection \<open>updateAvailableCharacters\<close>

text \<open>
  \<^verbatim>\<open>Characters(self.charLocations[slot][0])\<close>: KeyError for a missing slot, IndexError
  for empty character data, ValueError for an id that is no character.
\<close>

definition characterAt :: "Game \<Rightarrow> string \<Rightarrow> error + Characters" where
  "characterAt g slot =
     (case charLocations g slot of
        None \<Rightarrow> Inl KeyError
      | Some d \<Rightarrow> (case d of [] \<Rightarrow> Inl IndexError | i # _ \<Rightarrow> Characters_of i))"

definition addCharacterAt :: "Game \<Rightarrow> string \<Rightarrow> error + Game" where
  "addCharacterAt g slot =
     (case characterAt g slot of Inl e \<Rightarrow> Inl e | Inr c \<Rightarrow> Inr (addCharacter g c))"

definition updateAvailableCharacters :: "Game \<Rightarrow> error + Game" where
  "updateAvailableCharacters g =
     bind_err (addCharacterAt g ''start'') (\<lambda>g1.
     bind_err (addCharacterAt g1 ''start2'') (\<lambda>g2.
     bind_err (addCharacterAt g2 ''cathedral'') (\<lambda>g3.
     bind_err (addCharacterAt g3 ''castle'') (\<lambda>g4.
     bind_err (if canAccessFuture g4 then addCharacterAt g4 ''proto'' else Inr g4) (\<lambda>g5.
     bind_err (if canAccessDactylCharacter g5 then addCharacterAt g5 ''dactyl'' else Inr g5)
       (\<lambda>g6.
     (if hasMasamune g6 then addCharacterAt g6 ''burrow'' else Inr g6)))))))"

section \<open>Locations and location groups\<close>

text \<open>
  The three location classes. A location object is identified with its field values; the
  registry of \<open>initLocationGroups\<close> never builds two locations with the same fields
  (lemma \<open>registry_locations_distinct\<close> below), so this agrees with Python's identity
  comparison there. The mutable \<^verbatim>\<open>keyItem\<close> field lives in the solver state.
\<close>

datatype Location =
  Location string nat
  | EventLocation string nat nat
  | BaselineLocation string nat nat LootTiers

record LocationGroup =
  name :: string
  locations :: "Location list"
  weight :: int
  accessRule :: "Game \<Rightarrow> bool"
  weightDecay :: "(int \<Rightarrow> int) option"
  weightStack :: "int list"

definition LocationGroup_init ::
  "string \<Rightarrow> int \<Rightarrow> (Game \<Rightarrow> bool) \<Rightarrow> (int \<Rightarrow> int) option \<Rightarrow> LocationGroup" where
  "LocationGroup_init nm w rule decay =
     \<lparr>name = nm, locations = [], weight = w, accessRule = rule, weightDecay = decay,
      weightStack = []\<rparr>"

definition canAccess :: "LocationGroup \<Rightarrow> Game \<Rightarrow> bool" where
  "canAccess lg g = accessRule lg g"

definition getWeight :: "LocationGroup \<Rightarrow> int" where
  "getWeight lg = weight lg"

definition setWeight :: "LocationGroup \<Rightarrow> int \<Rightarrow> LocationGroup" where
  "setWeight lg w = lg\<lparr>weight := (if w < 1 then 1 else w)\<rparr>"

definition decayWeight :: "LocationGroup \<Rightarrow> LocationGroup" where
  "decayWeight lg =
     (let lg1 = lg\<lparr>weightStack := weightStack lg @ [weight lg]\<rparr>
      in case weightDecay lg1 of
           None \<Rightarrow> setWeight lg1 1
         | Some f \<Rightarrow> setWeight lg1 (f (weight lg1)))"

definition undoWeightDecay :: "LocationGroup \<Rightarrow> LocationGroup" where
  "undoWeightDecay lg =
     (if length (weightStack lg) > 0
      then setWeight (lg\<lparr>weightStack := butlast (weightStack lg)\<rparr>) (last (weightStack lg))
      else lg)"

definition getAvailableLocationCount :: "LocationGroup \<Rightarrow> nat" where
  "getAvailableLocationCount lg = length (locations lg)"

definition addLocation :: "LocationGroup \<Rightarrow> Location \<Rightarrow> LocationGroup" where
  "addLocation lg l =
     (if \<not> l \<in> set (locations lg) then lg\<lparr>locations := locations lg @ [l]\<rparr> else lg)"

text \<open>\<^verbatim>\<open>list.remove\<close> deletes the first occurrence and raises ValueError when there is none.\<close>

definition removeLocation :: "LocationGroup \<Rightarrow> Location \<Rightarrow> error + LocationGroup" where
  "removeLocation lg l =
     (if l \<in> set (locations lg) then Inr (lg\<lparr>locations := remove1 l (locations lg)\<rparr>)
      else Inl ValueError)"

definition getLocations :: "LocationGroup \<Rightarrow> Location list" where
  "getLocations lg = locations lg"

text \<open>
  The operations on a group, as data, to speak about every sequence of calls. A
  \<^verbatim>\<open>removeLocation\<close> that raises leaves the group as it was.
\<close>

datatype group_op =
  SetWeight int | DecayWeight | UndoWeightDecay | AddLocation Location
  | RemoveLocation Location

fun apply_group_op :: "LocationGroup \<Rightarrow> group_op \<Rightarrow> LocationGroup" where
  "apply_group_op lg (SetWeight w) = setWeight lg w"
| "apply_group_op lg DecayWeight = decayWeight lg"
| "apply_group_op lg UndoWeightDecay = undoWeightDecay lg"
| "apply_group_op lg (AddLocation l) = addLocation lg l"
| "apply_group_op lg (RemoveLocation l) =
     (case removeLocation lg l of Inl e \<Rightarrow> lg | Inr lg' \<Rightarrow> lg')"

section \<open>The initial key item pool\<close>

definition list_remove :: "'a list \<Rightarrow> 'a \<Rightarrow> error + 'a list" where
  "list_remove xs x = (if x \<in> set xs then Inr (remove1 x xs) else Inl ValueError)"

definition getInitialKeyItems :: "error + KeyItems list" where
  "getInitialKeyItems =
     (let keyItemList = all_KeyItems;
          keyItemList = keyItemList @ all_KeyItems;
          keyItemList = keyItemList @ all_KeyItems;
          keyItemList = keyItemList @ all_KeyItems;
          keyItemList = keyItemList @ all_KeyItems;
          keyItemList = filter (\<lambda>x. x \<noteq> rubyknife) keyItemList;
          keyItemList = filter (\<lambda>x. x \<noteq> dreamstone) keyItemList;
          keyItemList = filter (\<lambda>x. x \<noteq> clone) keyItemList;
          keyItemList = filter (\<lambda>x. x \<noteq> ctrigger) keyItemList;
          keyItemList = keyItemList @ [rubyknife, dreamstone, clone, ctrigger]
      in bind_err (list_remove keyItemList hilt) (\<lambda>l1.
         bind_err (list_remove l1 hilt) (\<lambda>l2.
         bind_err (list_remove l2 blade) (\<lambda>l3.
         bind_err (list_remove l3 blade) (\<lambda>l4.
         Inr (l4 @ [gatekey, gatekey, gatekey, pendant, pendant, pendant]))))))"

text \<open>The list the Python function builds, written out.\<close>

definition initialKeyItemList :: "KeyItems list" where
  "initialKeyItemList =
     [tomapop, gatekey, jerky, pendant, moonstone, prismshard, grandleon, heromedal,
      roboribbon,
      tomapop, gatekey, jerky, pendant, moonstone, prismshard, grandleon, heromedal,
      roboribbon,
      tomapop, hilt, blade, gatekey, jerky, pendant, moonstone, prismshard, grandleon,
      heromedal, roboribbon,
      tomapop, hilt, blade, gatekey, jerky, pendant, moonstone, prismshard, grandleon,
      heromedal, roboribbon,
      tomapop, hilt, blade, gatekey, jerky, pendant, moonstone, prismshard, grandleon,
      heromedal, roboribbon,
      rubyknife, dreamstone, clone, ctrigger,
      gatekey, gatekey, gatekey, pendant, pendant, pendant]"

section \<open>The placement solver\<close>

text \<open>
  The solver mutates shared objects: the registry \<^verbatim>\<open>locationGroups\<close> (a module global),
  the \<^verbatim>\<open>Game\<close>, the list \<^verbatim>\<open>chosenLocations\<close> (one list object, appended to by every
  frame and returned by all of them) and the \<^verbatim>\<open>keyItem\<close> field of the locations. They
  are the fields of \<open>solver_state\<close>, passed through every call. \<open>draws\<close> counts the
  random numbers consumed so far; the random source is a function \<open>rnd\<close> from that
  count to a raw number.
\<close>

record solver_state =
  locationGroups :: "LocationGroup list"
  game :: Game
  chosenLocations :: "Location list"
  keyItemOf :: "Location \<rightharpoonup> KeyItems"
  draws :: nat

text \<open>
  \<^verbatim>\<open>rand.randint(a, b)\<close> returns some integer of \<open>[a, b]\<close> and raises ValueError on an
  empty range; \<^verbatim>\<open>rand.choice(xs)\<close> returns some element and raises IndexError on an
  empty list. Every result the library can give is the image of some raw number.
\<close>

definition rand_randint :: "int \<Rightarrow> int \<Rightarrow> nat \<Rightarrow> error + int" where
  "rand_randint a b r =
     (if b < a then Inl ValueError else Inr (a + int (r mod nat (b - a + 1))))"

definition rand_choice :: "'a list \<Rightarrow> nat \<Rightarrow> error + 'a" where
  "rand_choice xs r = (if xs = [] then Inl IndexError else Inr (xs ! (r mod length xs)))"

text \<open>
  \<open>getAvailableLocations\<close>: the groups are referred to by their index in the registry,
  since the snapshot holds references to the group objects, not copies.
\<close>

definition getAvailableLocations :: "solver_state \<Rightarrow> error + (nat list \<times> solver_state)" where
  "getAvailableLocations st =
     bind_err (updateAvailableCharacters (game st)) (\<lambda>g'.
       Inr (filter (\<lambda>i. canAccess (locationGroups st ! i) g' \<and>
                         getAvailableLocationCount (locationGroups st ! i) > 0)
              [0..<length (locationGroups st)],
            st\<lparr>game := g'\<rparr>))"

text \<open>
  The local variables of one call of \<^verbatim>\<open>determineKeyItemPlacement_impl\<close> that live across
  iterations of its loop. \<open>remainingKeyItems\<close> is the caller's list object until the
  key item count is 10, when the name is bound to a new list. A call that returns
  False has not touched the list, and after a call that returns True the caller reads it
  no more, so the list is modelled as a local of the frame.
\<close>

record frame =
  location :: "Location option"
  locationGroup :: "nat option"
  keyItemTemp :: "KeyItems option"
  remainingKeyItems :: "KeyItems list"

definition new_frame :: "KeyItems list \<Rightarrow> frame" where
  "new_frame pool =
     \<lparr>location = None, locationGroup = None, keyItemTemp = None, remainingKeyItems = pool\<rparr>"

text \<open>
  Lines 990-992: give the location of the previous iteration back to its group and undo
  the weight decay. \<open>locationGroup\<close> is only ever set in an iteration that goes on to set
  \<open>location\<close>.
\<close>

definition undoLocation :: "frame \<Rightarrow> solver_state \<Rightarrow> solver_state" where
  "undoLocation fr st =
     (case (locationGroup fr, location fr) of
        (Some i, Some l) \<Rightarrow>
          st\<lparr>locationGroups :=
               (locationGroups st)[i := undoWeightDecay (addLocation (locationGroups st ! i) l)]\<rparr>
      | _ \<Rightarrow> st)"

text \<open>
  Lines 1002-1007: the loop over the snapshot. It returns the new value of
  \<^verbatim>\<open>locationGroup\<close> (assigned only at the break) and the last value of the loop variable
  \<^verbatim>\<open>group\<close>, which the code uses afterwards. Before this loop \<^verbatim>\<open>group\<close> holds the last
  group of the loop that sums the weights, or nothing when the snapshot is empty.
\<close>

fun selectGroup ::
  "LocationGroup list \<Rightarrow> nat list \<Rightarrow> int \<Rightarrow> int \<Rightarrow> nat option \<Rightarrow> nat option
    \<Rightarrow> nat option \<times> nat option" where
  "selectGroup gs [] counter locationChoice lg grp = (lg, grp)"
| "selectGroup gs (i # rest) counter locationChoice lg grp =
     (let counter' = counter + getWeight (gs ! i)
      in if counter' \<ge> locationChoice then (Some i, Some i)
         else selectGroup gs rest counter' locationChoice lg (Some i))"

text \<open>Lines 994-1015: choose a group by weight, a location in it, and take it.\<close>

definition selectLocation ::
  "(nat \<Rightarrow> nat) \<Rightarrow> nat list \<Rightarrow> frame \<Rightarrow> solver_state \<Rightarrow> error + (frame \<times> solver_state)" where
  "selectLocation rnd avail fr st =
     (let gs = locationGroups st;
          weightTotal = sum_list (map (\<lambda>i. getWeight (gs ! i)) avail)
      in bind_err (rand_randint 1 weightTotal (rnd (draws st))) (\<lambda>locationChoice.
         (case selectGroup gs avail 0 locationChoice (locationGroup fr)
                 (if avail = [] then None else Some (last avail)) of
            (lg, None) \<Rightarrow> Inl NameError
          | (lg, Some gi) \<Rightarrow>
              bind_err (rand_choice (getLocations (gs ! gi)) (rnd (draws st + 1))) (\<lambda>loc.
              bind_err (removeLocation (gs ! gi) loc) (\<lambda>g1.
                Inr (fr\<lparr>location := Some loc, locationGroup := lg\<rparr>,
                     st\<lparr>locationGroups := gs[gi := decayWeight g1],
                        chosenLocations := chosenLocations st @ [loc],
                        draws := draws st + 2\<rparr>))))))"

text \<open>Lines 1023-1026: keep the first token of every variant, in order.\<close>

fun dedupe :: "'a list \<Rightarrow> 'a list \<Rightarrow> 'a list" where
  "dedupe newList [] = newList"
| "dedupe newList (key # rest) =
     (if \<not> key \<in> set newList then dedupe (newList @ [key]) rest else dedupe newList rest)"

text \<open>Lines 1022-1027.\<close>

definition pruneKeyItems :: "Game \<Rightarrow> KeyItems list \<Rightarrow> KeyItems list" where
  "pruneKeyItems g pool = (if getKeyItemCount g = 10 then dedupe [] pool else pool)"

text \<open>
  Lines 1030-1034: draw a key item, remove all its tokens, assign it to the location and
  to the game.
\<close>

definition drawKeyItem ::
  "(nat \<Rightarrow> nat) \<Rightarrow> Location \<Rightarrow> KeyItems list \<Rightarrow> solver_state
    \<Rightarrow> error + (KeyItems \<times> KeyItems list \<times> solver_state)" where
  "drawKeyItem rnd loc pool st =
     bind_err (rand_choice pool (rnd (draws st))) (\<lambda>keyItem.
       Inr (keyItem, filter (\<lambda>x. x \<noteq> keyItem) pool,
            st\<lparr>keyItemOf := (keyItemOf st)(loc \<mapsto> keyItem),
               game := addKeyItem (game st) keyItem,
               draws := draws st + 1\<rparr>))"

text \<open>
  Lines 1038-1041: after the draw, put one token of the previous iteration's key item
  back and take that item out of the game.
\<close>

definition undoKeyItem ::
  "KeyItems option \<Rightarrow> KeyItems list \<Rightarrow> solver_state \<Rightarrow> KeyItems list \<times> solver_state" where
  "undoKeyItem kt pool st =
     (case kt of
        None \<Rightarrow> (pool, st)
      | Some k \<Rightarrow> (pool @ [k], st\<lparr>game := removeKeyItem (game st) k\<rparr>))"

text \<open>One pass through the loop body, lines 990-1041, up to the recursive call.\<close>

definition placementStep ::
  "(nat \<Rightarrow> nat) \<Rightarrow> nat list \<Rightarrow> frame \<Rightarrow> solver_state \<Rightarrow> error + (frame \<times> solver_state)" where
  "placementStep rnd avail fr st =
     bind_err (selectLocation rnd avail fr (undoLocation fr st)) (\<lambda>(fr1, st1).
       (case location fr1 of
          None \<Rightarrow> Inl NameError
        | Some loc \<Rightarrow>
            bind_err (drawKeyItem rnd loc (pruneKeyItems (game st1) (remainingKeyItems fr1)) st1)
              (\<lambda>(keyItem, pool2, st2).
                 (case undoKeyItem (keyItemTemp fr1) pool2 st2 of
                    (pool3, st3) \<Rightarrow>
                      Inr (fr1\<lparr>keyItemTemp := Some keyItem, remainingKeyItems := pool3\<rparr>,
                           st3)))))"

text \<open>
  The result of a call: what it returned (the flag, and the state whose
  \<open>chosenLocations\<close> is the returned list), an exception, or no result within the fuel.
  The loop has no exit but a successful recursive call, so it can run forever; \<open>fuel\<close>
  bounds the height of the tree of calls and iterations. \<open>limit\<close> is the number of
  further nested calls the interpreter allows (Python's recursion limit).
\<close>

datatype 'a outcome = Returned 'a | Raised error | OutOfFuel

fun determineKeyItemPlacement_impl ::
    "(nat \<Rightarrow> nat) \<Rightarrow> nat \<Rightarrow> nat \<Rightarrow> KeyItems list \<Rightarrow> solver_state
      \<Rightarrow> (bool \<times> solver_state) outcome"
  and placementLoop ::
    "(nat \<Rightarrow> nat) \<Rightarrow> nat \<Rightarrow> nat \<Rightarrow> nat list \<Rightarrow> frame \<Rightarrow> solver_state
      \<Rightarrow> (bool \<times> solver_state) outcome" where
  "determineKeyItemPlacement_impl rnd limit fuel pool st =
     (if length pool = 0 then Returned (True, st)
      else (case getAvailableLocations st of
              Inl e \<Rightarrow> Raised e
            | Inr (availableLocations, st1) \<Rightarrow>
                if length availableLocations = 0 then Returned (False, st1)
                else placementLoop rnd limit fuel availableLocations (new_frame pool) st1))"
| "placementLoop rnd limit 0 avail fr st = OutOfFuel"
| "placementLoop rnd limit (Suc fuel) avail fr st =
     (case placementStep rnd avail fr st of
        Inl e \<Rightarrow> Raised e
      | Inr (fr', st') \<Rightarrow>
          (case limit of
             0 \<Rightarrow> Raised RecursionError
           | Suc limit' \<Rightarrow>
               (case determineKeyItemPlacement_impl rnd limit' fuel (remainingKeyItems fr') st' of
                  Returned (keyItemConfirmed, st'') \<Rightarrow>
                    if keyItemConfirmed then Returned (keyItemConfirmed, st'')
                    else placementLoop rnd limit fuel avail fr' st''
                | Raised e \<Rightarrow> Raised e
                | OutOfFuel \<Rightarrow> OutOfFuel)))"

section \<open>The location group registry\<close>

text \<open>
  \<open>initLocationGroups\<close>, group by group, in the order of the source. A chain of
  \<^verbatim>\<open>.addLocation(...)\<close> calls is a left fold of \<open>addLocation\<close>. The decay functions of
  the groups \<^verbatim>\<open>Open\<close> and \<^verbatim>\<open>SealedLocations\<close> multiply the weight by the floats 0.2
  and 0.3 and truncate; they are the parameters \<open>decay02\<close> and \<open>decay03\<close>, and nothing
  below depends on what they compute.
\<close>

definition getPointer :: "Location \<Rightarrow> nat" where
  "getPointer l =
     (case l of Location n p \<Rightarrow> p | EventLocation n p q \<Rightarrow> p
      | BaselineLocation n p q t \<Rightarrow> p)"

definition darkagesLocations :: LocationGroup where
  "darkagesLocations =
     foldl addLocation (LocationGroup_init ''Darkages'' 30 canAccessDarkAges None)
       [Location ''Mt Woe 1st Screen'' 0x35F770,
        Location ''Mt Woe 2nd Screen 1'' 0x35F748,
        Location ''Mt Woe 2nd Screen 2'' 0x35F74C,
        Location ''Mt Woe 2nd Screen 3'' 0x35F750,
        Location ''Mt Woe 2nd Screen 4'' 0x35F754,
        Location ''Mt Woe 2nd Screen 5'' 0x35F758,
        Location ''Mt Woe 3rd Screen 1'' 0x35F75C,
        Location ''Mt Woe 3rd Screen 2'' 0x35F760,
        Location ''Mt Woe 3rd Screen 3'' 0x35F764,
        Location ''Mt Woe 3rd Screen 4'' 0x35F768,
        Location ''Mt Woe 3rd Screen 5'' 0x35F76C,
        Location ''Mt Woe Final 1'' 0x35F774,
        Location ''Mt Woe Final 2'' 0x35F778,
        BaselineLocation ''Mount Woe'' 0x381010 0x381013 High]"

definition fionaShrineLocations :: LocationGroup where
  "fionaShrineLocations =
     foldl addLocation (LocationGroup_init ''Fionashrine'' 2 canAccessFionasShrine None)
       [BaselineLocation ''Fiona's Shrine'' 0x6EF5E 0x6EF61 MidHigh]"

definition futureOpenLocations :: LocationGroup where
  "futureOpenLocations =
     foldl addLocation (LocationGroup_init ''FutureOpen'' 20 canAccessFuture None)
       [Location ''Arris Dome'' 0x35F5C8,
        Location ''Arris Dome Food Store'' 0x35F744,
        BaselineLocation ''Arris Dome Doan'' 0x392F4C 0x392F4E MidHigh,
        BaselineLocation ''Sun Palace'' 0x1B8D95 0x1B8D97 MidHigh]"

definition futureSewersLocations :: LocationGroup where
  "futureSewersLocations =
     foldl addLocation (LocationGroup_init ''FutureSewers'' 9 canAccessFuture None)
       [Location ''Sewers 1'' 0x35F614,
        Location ''Sewers 2'' 0x35F618,
        Location ''Sewers 3'' 0x35F61C]"

definition futureLabLocations :: LocationGroup where
  "futureLabLocations =
     foldl addLocation (LocationGroup_init ''FutureLabs'' 15 canAccessFuture None)
       [Location ''Lab 16 1'' 0x35F5B8,
        Location ''Lab 16 2'' 0x35F5BC,
        Location ''Lab 16 3'' 0x35F5C0,
        Location ''Lab 16 4'' 0x35F5C4,
        Location ''Lab 32 1'' 0x35F5E0,
        Location ''Prison Tower'' 0x35F7DC]"

definition genoDomeLocations :: LocationGroup where
  "genoDomeLocations =
     foldl addLocation (LocationGroup_init ''GenoDome'' 33 canAccessFuture None)
       [Location ''Geno Dome 1st Floor 1'' 0x35F630,
        Location ''Geno Dome 1st Floor 2'' 0x35F634,
        Location ''Geno Dome 1st Floor 3'' 0x35F638,
        Location ''Geno Dome 1st Floor 4'' 0x35F63C,
        Location ''Geno Dome Room 1'' 0x35F640,
        Location ''Geno Dome Room 2'' 0x35F644,
        Location ''Proto 4 Chamber 1'' 0x35F648,
        Location ''Proto 4 Chamber 2'' 0x35F64C,
        Location ''Geno Dome 2nd Floor 1'' 0x35F668,
        Location ''Geno Dome 2nd Floor 2'' 0x35F66C,
        Location ''Geno Dome 2nd Floor 3'' 0x35F670,
        Location ''Geno Dome 2nd Floor 4'' 0x35F674,
        BaselineLocation ''Geno Dome Mother Brain'' 0x1B1844 0x1B1846 MidHigh]"

definition factoryLocations :: LocationGroup where
  "factoryLocations =
     foldl addLocation (LocationGroup_init ''Factory'' 30 canAccessFuture None)
       [Location ''Factory Ruins Left - Auxillary Console'' 0x35F5E8,
        Location ''Factory Ruins Left - Security Center (Right)'' 0x35F5EC,
        Location ''Factory Ruins Left - Security Center (Left)'' 0x35F5F0,
        Location ''Factory Ruins Left - Power Core'' 0x35F610,
        Location ''Factory Ruins Right - Data Core 1'' 0x35F650,
        Location ''Factory Ruins Left - Data Core 2'' 0x35F654,
        Location ''Factory Ruins Right - Factory Floor (Top)'' 0x35F5F4,
        Location ''Factory Ruins Right - Factory Floor (Left)'' 0x35F5F8,
        Location ''Factory Ruins Right - Factory Floor (Bottom)'' 0x35F5FC,
        Location ''Factory Ruins Right - Factory Floor (Secret)'' 0x35F600,
        Location ''Factory Ruins Right - Crane Control Room (lower)'' 0x35F604,
        Location ''Factory Ruins Right - Crane Control Room (upper)'' 0x35F608,
        Location ''Factory Ruins Right - Information Archive'' 0x35F60C]"

definition giantsClawLocations :: LocationGroup where
  "giantsClawLocations =
     foldl addLocation (LocationGroup_init ''Giantsclaw'' 30 canAccessGiantsClaw None)
       [Location ''Giant's Claw Kino's Cell'' 0x35F468,
        Location ''Giant's Claw Traps'' 0x35F46C,
        Location ''Giant's Claw Caves 1'' 0x35F56C,
        Location ''Giant's Claw Caves 2'' 0x35F570,
        Location ''Giant's Claw Caves 3'' 0x35F574,
        Location ''Giant's Claw Caves 4'' 0x35F578,
        Location ''Giant's Claw Caves 5'' 0x35F57C,
        Location ''Giant's Claw Caves 6'' 0x35F580,
        BaselineLocation ''Giant's Claw'' 0x1B8AEC 0x1B8AEF Mid]"

definition northernRuinsLocations :: LocationGroup where
  "northernRuinsLocations =
     foldl addLocation (LocationGroup_init ''NorthernRuins'' 25
          (\<lambda>game. canAccessRuins game \<and> canAccessSealedChests game) None)
       [EventLocation ''Hero's Grave 1'' 0x1B03CD 0x1B03D0,
        EventLocation ''Hero's Grave 2'' 0x1B0401 0x1B0404,
        EventLocation ''Hero's Grave 3'' 0x393F8 0x393FF]"

definition guardiaTreasuryLocations :: LocationGroup where
  "guardiaTreasuryLocations =
     foldl addLocation (LocationGroup_init ''GuardiaTreasury'' 36 canAccessKingsTrial None)
       [Location ''Guardia Basement 1'' 0x35F41C,
        Location ''Guardia Basement 2'' 0x35F420,
        Location ''Guardia Basement 3'' 0x35F424,
        Location ''Guardia Treasury 1'' 0x35F7A4,
        Location ''Guardia Treasury 2'' 0x35F7A8,
        Location ''Guardia Treasury 3'' 0x35F7AC,
        BaselineLocation ''King's Trial'' 0x38045D 0x38045F High]"

definition earlyOzziesFortLocations :: LocationGroup where
  "earlyOzziesFortLocations =
     foldl addLocation (LocationGroup_init ''Ozzie's Fort Front'' 6
          (\<lambda>game. canAccessFuture game \<or> canAccessPrehistory game) None)
       [Location ''Ozzie's Fort Guillotines 1'' 0x35F554,
        Location ''Ozzie's Fort Guillotines 2'' 0x35F558,
        Location ''Ozzie's Fort Guillotines 3'' 0x35F55C,
        Location ''Ozzie's Fort Guillotines 4'' 0x35F560]"

definition lateOzziesFortLocations :: LocationGroup where
  "lateOzziesFortLocations =
     foldl addLocation (LocationGroup_init ''Ozzie's Fort Back'' 6 canAccessDarkAges None)
       [Location ''Ozzie's Fort Final 1'' 0x35F564,
        Location ''Ozzie's Fort Final 2'' 0x35F568]"

definition openLocations :: "(int \<Rightarrow> int) \<Rightarrow> LocationGroup" where
  "openLocations decay02 =
     foldl addLocation (LocationGroup_init ''Open'' 10 (\<lambda>game. True) (Some decay02))
       [Location ''Truce Mayor's House F1'' 0x35F40C,
        Location ''Truce Mayor's House F2'' 0x35F410,
        Location ''Forest Ruins'' 0x35F42C,
        Location ''Porre Mayor's House F2'' 0x35F440,
        Location ''Truce Canyon 1'' 0x35F470,
        Location ''Truce Canyon 2'' 0x35F474,
        Location ''Fiona's House 1'' 0x35F4FC,
        Location ''Fiona's House 2'' 0x35F500,
        Location ''Cursed Woods 1'' 0x35F4A4,
        Location ''Cursed Woods 2'' 0x35F4A8,
        Location ''Frog's Burrow Right Chest'' 0x35F4AC]"

definition openKeys :: LocationGroup where
  "openKeys =
     foldl addLocation (LocationGroup_init ''OpenKeys'' 5 (\<lambda>game. True) None)
       [BaselineLocation ''Zenan Bridge'' 0x393C82 0x393C84 Mid,
        BaselineLocation ''Snail Stop'' 0x380C42 0x380C5B Mid,
        BaselineLocation ''Lazy Carpenter'' 0x3966B 0x3966D Mid]"

definition heckranLocations :: LocationGroup where
  "heckranLocations =
     foldl addLocation (LocationGroup_init ''Heckran'' 4 (\<lambda>game. True) None)
       [Location ''Heckran Cave Sidetrack'' 0x35F430,
        Location ''Heckran Cave Entrance'' 0x35F434,
        Location ''Heckran Cave 1'' 0x35F438,
        Location ''Heckran Cave 2'' 0x35F43C,
        BaselineLocation ''Taban'' 0x35F888 0x35F88A Mid]"

definition guardiaCastleLocations :: LocationGroup where
  "guardiaCastleLocations =
     foldl addLocation (LocationGroup_init ''GuardiaCastle'' 3 (\<lambda>game. True) None)
       [Location ''King's Room (Present)'' 0x35F414,
        Location ''Queen's Room (Present)'' 0x35F418,
        Location ''King's Room(Middle Ages)'' 0x35F478,
        Location ''Queen's Room(Middle Ages)'' 0x35F47C,
        Location ''Royal Kitchen'' 0x35F480,
        Location ''Queen's Tower(Middle Ages)'' 0x35F7B0,
        Location ''King's Tower(Middle Ages)'' 0x35F7CC,
        Location ''King's Tower(Present)'' 0x35F7D0,
        Location ''Queen's Tower(Present)'' 0x35F7D4,
        Location ''Guardia Court Tower'' 0x35F7D8]"

definition cathedralLocations :: LocationGroup where
  "cathedralLocations =
     foldl addLocation (LocationGroup_init ''CathedralLocations'' 6 (\<lambda>game. True) None)
       [Location ''Manoria Cathedral 1'' 0x35F488,
        Location ''Manoria Cathedral 2'' 0x35F48C,
        Location ''Manoria Cathedral 3'' 0x35F490,
        Location ''Cathedral Interior 1'' 0x35F494,
        Location ''Cathedral Interior 2'' 0x35F498,
        Location ''Cathedral Interior 3'' 0x35F49C,
        Location ''Cathedral Interior 4'' 0x35F4A0,
        Location ''Manoria Shrine Sideroom 1'' 0x35F588,
        Location ''Manoria Shrine Sideroom 2'' 0x35F58C,
        Location ''Manoria Bromide Room 1'' 0x35F590,
        Location ''Manoria Bromide Room 2'' 0x35F594,
        Location ''Manoria Bromide Room 3'' 0x35F598,
        Location ''Manoria Magus Shrine 1'' 0x35F59C,
        Location ''Manoria Magus Shrine 2'' 0x35F5A0,
        Location ''Yakra's Room'' 0x35F584]"

definition denadoroLocations :: LocationGroup where
  "denadoroLocations =
     foldl addLocation (LocationGroup_init ''DenadoroLocations'' 6 (\<lambda>game. True) None)
       [Location ''Denadoro Mts Screen 2 1'' 0x35F4B0,
        Location ''Denadoro Mts Screen 2 2'' 0x35F4B4,
        Location ''Denadoro Mts Screen 2 3'' 0x35F4B8,
        Location ''Denadoro Mts Final 1'' 0x35F4BC,
        Location ''Denadoro Mts Final 2'' 0x35F4C0,
        Location ''Denadoro Mts Final 3'' 0x35F4C4,
        Location ''Denadoro Mts Waterfall Top 1'' 0x35F4C8,
        Location ''Denadoro Mts Waterfall Top 2'' 0x35F4CC,
        Location ''Denadoro Mts Waterfall Top 3'' 0x35F4D0,
        Location ''Denadoro Mts Waterfall Top 4'' 0x35F4D4,
        Location ''Denadoro Mts Waterfall Top 5'' 0x35F4D8,
        Location ''Denadoro Mts Entrance 1'' 0x35F4DC,
        Location ''Denadoro Mts Entrance 2'' 0x35F4E0,
        Location ''Denadoro Mts Screen 3 1'' 0x35F4E4,
        Location ''Denadoro Mts Screen 3 2'' 0x35F4E8,
        Location ''Denadoro Mts Screen 3 3'' 0x35F4EC,
        Location ''Denadoro Mts Screen 3 4'' 0x35F4F0,
        Location ''Denadoro Mts Ambush'' 0x35F4F4,
        Location ''Denadoro Mts Save Point'' 0x35F4F8,
        BaselineLocation ''Denadoro Mountain'' 0x3773F1 0x3773F3 Mid]"

definition sealedLocations :: "(int \<Rightarrow> int) \<Rightarrow> LocationGroup" where
  "sealedLocations decay03 =
     foldl addLocation (LocationGroup_init ''SealedLocations'' 30
          canAccessSealedChests (Some decay03))
       [Location ''Bangor Dome Seal 1'' 0x35F5A4,
        Location ''Bangor Dome Seal 2'' 0x35F5A8,
        Location ''Bangor Dome Seal 3'' 0x35F5AC,
        Location ''Trann Dome Seal 1'' 0x35F5B0,
        Location ''Trann Dome Seal 2'' 0x35F5B4,
        Location ''Arris Dome Seal 1'' 0x35F5CC,
        Location ''Arris Dome Seal 2'' 0x35F5D0,
        Location ''Arris Dome Seal 3'' 0x35F5D4,
        Location ''Arris Dome Seal 4'' 0x35F5D8,
        EventLocation ''Truce Inn 600AD Sealed'' 0x19FE7C 0x19FE83,
        EventLocation ''Porre Elder's House 1 Sealed'' 0x1B90EA 0x1B90F2,
        EventLocation ''Porre Elder's House 2Sealed'' 0x1B9123 0x1B9126,
        EventLocation ''Guardia Castle 600AD Sealed'' 0x3AED24 0x3AED26,
        EventLocation ''Guardia Forest 600AD Sealed'' 0x39633B 0x39633D,
        EventLocation ''Truce Inn 1000AD Sealed'' 0xC3328 0xC332C,
        EventLocation ''Porre Mayor's House Sealed 1'' 0x1BACD6 0x1BACD8,
        EventLocation ''Porre Mayor's House Sealed 2'' 0x1BACF7 0x1BACF9,
        EventLocation ''Guardia Forest 1000AD Sealed'' 0x3908B5 0x3908C9,
        EventLocation ''Guardia Castle 1000AD Sealed'' 0x3AEF65 0x3AEF67,
        EventLocation ''Heckran's Cave Sealed 1'' 0x24EC29 0x24EC2B,
        EventLocation ''Heckran's Cave Sealed 2'' 0x24EC3B 0x24EC3D]"

definition magicCaveLocations :: LocationGroup where
  "magicCaveLocations =
     foldl addLocation (LocationGroup_init ''Magic Cave'' 4
          (\<lambda>game. canAccessSealedChests game \<and> canAccessMagusCastle game) None)
       [EventLocation ''Magic Cave'' 0x1B31C7 0x1B31CA]"

definition prehistoryForestMazeLocations :: LocationGroup where
  "prehistoryForestMazeLocations =
     foldl addLocation (LocationGroup_init ''PrehistoryForestMaze'' 18 canAccessPrehistory None)
       [Location ''Mystic Mtn Stream'' 0x35F678,
        Location ''Forest Maze 1'' 0x35F67C,
        Location ''Forest Maze 2'' 0x35F680,
        Location ''Forest Maze 3'' 0x35F684,
        Location ''Forest Maze 4'' 0x35F688,
        Location ''Forest Maze 5'' 0x35F68C,
        Location ''Forest Maze 6'' 0x35F690,
        Location ''Forest Maze 7'' 0x35F694,
        Location ''Forest Maze 8'' 0x35F698,
        Location ''Forest Maze 9'' 0x35F69C]"

definition prehistoryReptiteLocations :: LocationGroup where
  "prehistoryReptiteLocations =
     foldl addLocation (LocationGroup_init ''PrehistoryReptite'' 27 canAccessPrehistory None)
       [Location ''Reptite Lair Reptites 1'' 0x35F6B8,
        Location ''Reptite Lair Reptites 2'' 0x35F6BC,
        BaselineLocation ''Reptite Lair'' 0x18FC04 0x18FC07 MidHigh]"

definition prehistoryDactylNest :: LocationGroup where
  "prehistoryDactylNest =
     foldl addLocation (LocationGroup_init ''PrehistoryDactylNest'' 6 canAccessPrehistory None)
       [Location ''Dactyl Nest 1'' 0x35F6C0,
        Location ''Dactyl Nest 2'' 0x35F6C4,
        Location ''Dactyl Nest 3'' 0x35F6C8]"

definition melchiorsRefinementslocations :: LocationGroup where
  "melchiorsRefinementslocations =
     foldl addLocation (LocationGroup_init ''MelchiorRefinements'' 15
          canAccessMelchiorsRefinements None)
       [BaselineLocation ''Melchior's Refinements'' 0x3805DE 0x3805E0 High]"

definition frogsBurrowLocation :: LocationGroup where
  "frogsBurrowLocation =
     foldl addLocation (LocationGroup_init ''FrogsBurrowLocation'' 9 canAccessBurrowItem None)
       [BaselineLocation ''Frog's Burrow Left Chest'' 0x3891DE 0x3891E0 MidHigh]"

definition initLocationGroups :: "(int \<Rightarrow> int) \<Rightarrow> (int \<Rightarrow> int) \<Rightarrow> LocationGroup list" where
  "initLocationGroups decay02 decay03 =
     [prehistoryForestMazeLocations,
      prehistoryReptiteLocations,
      prehistoryDactylNest,
      darkagesLocations,
      fionaShrineLocations,
      giantsClawLocations,
      northernRuinsLocations,
      guardiaTreasuryLocations,
      openLocations decay02,
      openKeys,
      heckranLocations,
      cathedralLocations,
      guardiaCastleLocations,
      denadoroLocations,
      magicCaveLocations,
      melchiorsRefinementslocations,
      frogsBurrowLocation,
      earlyOzziesFortLocations,
      lateOzziesFortLocations,
      futureOpenLocations,
      futureLabLocations,
      futureSewersLocations,
      genoDomeLocations,
      factoryLocations,
      sealedLocations decay03]"

text \<open>
  \<open>determineKeyItemPlacement\<close>: build the registry, the game with its two flags, the
  empty list of chosen locations and the initial pool, and call the recursive function.
\<close>

definition determineKeyItemPlacement ::
  "(int \<Rightarrow> int) \<Rightarrow> (int \<Rightarrow> int) \<Rightarrow> (nat \<Rightarrow> nat) \<Rightarrow> nat \<Rightarrow> nat
    \<Rightarrow> (string \<rightharpoonup> int list) \<Rightarrow> bool \<Rightarrow> bool \<Rightarrow> (bool \<times> solver_state) outcome" where
  "determineKeyItemPlacement decay02 decay03 rnd limit fuel charlocs lockedCh earlyPend =
     (let st = \<lparr>locationGroups = initLocationGroups decay02 decay03,
                game = setLockedCharacters (setEarlyPendant (Game_init charlocs) earlyPend)
                         lockedCh,
                chosenLocations = [], keyItemOf = Map.empty, draws = 0\<rparr>
      in case getInitialKeyItems of
           Inl e \<Rightarrow> Raised e
         | Inr remaining \<Rightarrow> determineKeyItemPlacement_impl rnd limit fuel remaining st)"

section \<open>A small registry on which the solver backtracks\<close>

text \<open>
  Concrete inputs for the recursive function: a registry of one group \<open>A\<close> with the
  locations \<open>A1\<close> and \<open>A2\<close>, accessible as long as the game does not hold tomapop, a
  pool of two tomapop tokens and one jerky token, and the states and the frame that the
  run on them goes through.
\<close>

definition cx_l1 :: Location where "cx_l1 = Location ''A1'' 1"
definition cx_l2 :: Location where "cx_l2 = Location ''A2'' 2"

definition cx_rule :: "Game \<Rightarrow> bool" where
  "cx_rule g = (\<not> hasKeyItem g tomapop)"

definition cx_charLocations :: "string \<rightharpoonup> int list" where
  "cx_charLocations =
     [''start'' \<mapsto> [0], ''start2'' \<mapsto> [1], ''cathedral'' \<mapsto> [2], ''castle'' \<mapsto> [3],
      ''proto'' \<mapsto> [4], ''dactyl'' \<mapsto> [5], ''burrow'' \<mapsto> [6]]"

definition cx_game :: "KeyItems set \<Rightarrow> Game" where
  "cx_game ks =
     \<lparr>characters = {Crono, Marle, Lucca, Robo}, keyItems = ks, earlyPendant = False,
      lockedChars = False, charLocations = cx_charLocations\<rparr>"

definition cx_group :: "Location list \<Rightarrow> int \<Rightarrow> int list \<Rightarrow> LocationGroup" where
  "cx_group ls w ws =
     \<lparr>name = ''A'', locations = ls, weight = w, accessRule = cx_rule, weightDecay = None,
      weightStack = ws\<rparr>"

definition cx_pool :: "KeyItems list" where
  "cx_pool = [tomapop, tomapop, jerky]"

definition cx_start :: solver_state where
  "cx_start =
     \<lparr>locationGroups = [cx_group [cx_l1, cx_l2] 5 []], game = cx_game {},
      chosenLocations = [], keyItemOf = Map.empty, draws = 0\<rparr>"

definition cx_retry_frame :: frame where
  "cx_retry_frame =
     \<lparr>location = Some cx_l1, locationGroup = Some 0, keyItemTemp = Some tomapop,
      remainingKeyItems = [jerky]\<rparr>"

definition cx_retry_state :: solver_state where
  "cx_retry_state =
     \<lparr>locationGroups = [cx_group [cx_l2] 1 [5]], game = cx_game {tomapop},
      chosenLocations = [cx_l1], keyItemOf = [cx_l1 \<mapsto> tomapop], draws = 3\<rparr>"

definition cx_ten :: solver_state where
  "cx_ten =
     \<lparr>locationGroups = [cx_group [cx_l1, cx_l2] 5 []],
      game = cx_game {tomapop, hilt, blade, dreamstone, rubyknife, gatekey, jerky, pendant,
                      moonstone, prismshard},
      chosenLocations = [], keyItemOf = Map.empty, draws = 0\<rparr>"

definition cx_ten_pool :: "KeyItems list" where
  "cx_ten_pool =
     [grandleon, heromedal, roboribbon, grandleon, heromedal, roboribbon, clone, ctrigger]"

section \<open>Notions used in the proofs\<close>

text \<open>
  The key item variants a frame still has to place at its depth: those in its pool, and
  the provisional one of the last iteration, which the next iteration puts back.
\<close>

definition frame_variants :: "frame \<Rightarrow> KeyItems set" where
  "frame_variants fr = set (remainingKeyItems fr) \<union> set_option (keyItemTemp fr)"

definition frame_fresh :: "frame \<Rightarrow> bool" where
  "frame_fresh fr = (case keyItemTemp fr of None \<Rightarrow> True
                     | Some kt \<Rightarrow> \<not> kt \<in> set (remainingKeyItems fr))"

text \<open>All locations still held by the groups of a registry.\<close>

definition all_locations :: "LocationGroup list \<Rightarrow> Location list" where
  "all_locations gs = concat (map locations gs)"

text \<open>
  What holds of the solver state whenever \<open>determineKeyItemPlacement_impl\<close> is entered
  with pool \<open>pool\<close> in a run on a registry with an always accessible group that is large
  enough: weights are at least 1, no location is in two places, the always accessible
  group has a location left for every variant still in the pool, the chosen locations
  carry exactly the variants no longer in the pool, each once, and these are the key
  items of the game.
\<close>

definition solver_inv :: "KeyItems list \<Rightarrow> solver_state \<Rightarrow> bool" where
  "solver_inv pool st \<longleftrightarrow>
     (\<forall>g \<in> set (locationGroups st). 1 \<le> weight g) \<and>
     distinct (all_locations (locationGroups st) @ chosenLocations st) \<and>
     (\<exists>g \<in> set (locationGroups st).
        (\<forall>gm. accessRule g gm) \<and> card (set pool) \<le> length (locations g)) \<and>
     (\<exists>ks. map (keyItemOf st) (chosenLocations st) = map Some ks \<and> distinct ks \<and>
           set ks = UNIV - set pool) \<and>
     keyItems (game st) = UNIV - set pool"

text \<open>
  A character mapping as the character writer produces it: every slot the game reads
  holds character data that starts with a character id.
\<close>

definition valid_charLocations :: "(string \<rightharpoonup> int list) \<Rightarrow> bool" where
  "valid_charLocations cl \<longleftrightarrow>
     (\<forall>slot \<in> set [''start'', ''start2'', ''cathedral'', ''castle'', ''proto'', ''dactyl'',
                     ''burrow''].
        \<exists>i rest. cl slot = Some (i # rest) \<and> 0 \<le> i \<and> i \<le> 6)"

section \<open>Properties of location groups\<close>

lemma weight_setWeight: "1 \<le> weight (setWeight lg w)"
  by (simp add: setWeight_def)

lemma weight_decayWeight: "1 \<le> weight (decayWeight lg)"
  by (simp add: decayWeight_def Let_def weight_setWeight split: option.split)

lemma weight_undoWeightDecay: "1 \<le> weight lg \<Longrightarrow> 1 \<le> weight (undoWeightDecay lg)"
  by (simp add: undoWeightDecay_def weight_setWeight)

lemma weight_addLocation: "weight (addLocation lg l) = weight lg"
  by (simp add: addLocation_def)

lemma weight_removeLocation: "removeLocation lg l = Inr lg' \<Longrightarrow> weight lg' = weight lg"
  by (auto simp: removeLocation_def split: if_splits)

lemma weight_apply_group_op: "1 \<le> weight lg \<Longrightarrow> 1 \<le> weight (apply_group_op lg op)"
proof (cases op)
  case (RemoveLocation l)
  assume "1 \<le> weight lg"
  then show ?thesis
    using RemoveLocation by (auto split: sum.split dest: weight_removeLocation)
qed (simp_all add: weight_setWeight weight_decayWeight weight_undoWeightDecay
      weight_addLocation)

text \<open>
  C7. A group constructed with weight at least 1 keeps a weight of at least 1 under every
  sequence of \<open>setWeight\<close>, \<open>decayWeight\<close> (with no decay function, or with any decay
  function), \<open>undoWeightDecay\<close>, \<open>addLocation\<close> and \<open>removeLocation\<close> calls.
\<close>

theorem weight_invariant:
  "1 \<le> w \<Longrightarrow> 1 \<le> weight (foldl apply_group_op (LocationGroup_init nm w rule decay) ops)"
proof -
  have step: "1 \<le> weight lg \<Longrightarrow> 1 \<le> weight (foldl apply_group_op lg ops)" for lg
    by (induction ops arbitrary: lg) (simp_all add: weight_apply_group_op)
  assume "1 \<le> w"
  then have "1 \<le> weight (LocationGroup_init nm w rule decay)"
    by (simp add: LocationGroup_init_def)
  then show ?thesis by (rule step)
qed

theorem weight_invariant_witness:
  "(1::int) \<le> 10 \<and>
   1 \<le> weight (foldl apply_group_op
          (LocationGroup_init ''Open'' 10 (\<lambda>g. True) (Some (\<lambda>w. w * 2 div 10)))
          [DecayWeight, DecayWeight, SetWeight (-3), UndoWeightDecay, UndoWeightDecay,
           UndoWeightDecay]) \<and>
   weight (foldl apply_group_op
          (LocationGroup_init ''Open'' 10 (\<lambda>g. True) (Some (\<lambda>w. w * 2 div 10)))
          [DecayWeight, DecayWeight]) = 1"
  using weight_invariant [of 10 "''Open''" "\<lambda>g. True" "Some (\<lambda>w. w * 2 div 10)"
      "[DecayWeight, DecayWeight, SetWeight (-3), UndoWeightDecay, UndoWeightDecay,
        UndoWeightDecay]"]
  by (simp add: LocationGroup_init_def decayWeight_def setWeight_def)

text \<open>
  C8. For a group whose weight is at least 1, with no decay function or with any decay
  function, \<open>decayWeight\<close> followed at once by \<open>undoWeightDecay\<close> gives back the group
  as it was: the same weight, and the same stack of earlier weights.
\<close>

theorem decay_undo_roundtrip:
  "1 \<le> weight lg \<Longrightarrow> undoWeightDecay (decayWeight lg) = lg"
  by (simp add: undoWeightDecay_def decayWeight_def setWeight_def Let_def
      split: option.split)

theorem decay_undo_roundtrip_witness:
  "1 \<le> weight (LocationGroup_init ''SealedLocations'' 30 canAccessSealedChests
           (Some (\<lambda>w. w * 3 div 10))) \<and>
   weight (decayWeight (LocationGroup_init ''SealedLocations'' 30 canAccessSealedChests
           (Some (\<lambda>w. w * 3 div 10)))) = 9 \<and>
   undoWeightDecay (decayWeight (LocationGroup_init ''SealedLocations'' 30
           canAccessSealedChests (Some (\<lambda>w. w * 3 div 10)))) =
     LocationGroup_init ''SealedLocations'' 30 canAccessSealedChests
           (Some (\<lambda>w. w * 3 div 10))"
  using decay_undo_roundtrip [of "LocationGroup_init ''SealedLocations'' 30
      canAccessSealedChests (Some (\<lambda>w. w * 3 div 10))"]
  by (simp add: LocationGroup_init_def decayWeight_def setWeight_def)

text \<open>
  C10. On a group whose stack of earlier weights is empty, \<open>undoWeightDecay\<close> does
  nothing: the guard skips the pop, so nothing is raised, and every field of the group
  is as before.
\<close>

theorem undo_empty_stack_noop:
  "weightStack lg = [] \<Longrightarrow> undoWeightDecay lg = lg"
  by (simp add: undoWeightDecay_def)

theorem undo_empty_stack_noop_witness:
  "weightStack (LocationGroup_init ''Heckran'' 4 (\<lambda>g. True) None) = [] \<and>
   undoWeightDecay (LocationGroup_init ''Heckran'' 4 (\<lambda>g. True) None) =
     LocationGroup_init ''Heckran'' 4 (\<lambda>g. True) None"
  using undo_empty_stack_noop [of "LocationGroup_init ''Heckran'' 4 (\<lambda>g. True) None"]
  by (simp add: LocationGroup_init_def)

section \<open>Properties of the initial pool\<close>

lemma getInitialKeyItems_eq: "getInitialKeyItems = Inr initialKeyItemList"
  by (simp add: getInitialKeyItems_def all_KeyItems_def list_remove_def bind_err_def
      initialKeyItemList_def)

text \<open>
  C5. \<open>getInitialKeyItems\<close> returns a list of 61 tokens: five each of tomapop, jerky,
  moonstone, prismshard, grandleon, heromedal and roboribbon, three each of hilt and
  blade, one each of dreamstone, rubyknife, clone and ctrigger, eight each of gatekey and
  pendant.
\<close>

theorem initial_pool_composition:
  "\<exists>pool. getInitialKeyItems = Inr pool \<and> length pool = 61 \<and>
     count_list pool tomapop = 5 \<and> count_list pool jerky = 5 \<and>
     count_list pool moonstone = 5 \<and> count_list pool prismshard = 5 \<and>
     count_list pool grandleon = 5 \<and> count_list pool heromedal = 5 \<and>
     count_list pool roboribbon = 5 \<and>
     count_list pool hilt = 3 \<and> count_list pool blade = 3 \<and>
     count_list pool dreamstone = 1 \<and> count_list pool rubyknife = 1 \<and>
     count_list pool clone = 1 \<and> count_list pool ctrigger = 1 \<and>
     count_list pool gatekey = 8 \<and> count_list pool pendant = 8"
  unfolding getInitialKeyItems_eq
  by (simp add: initialKeyItemList_def)

section \<open>Evaluation of the model\<close>

lemmas cx_defs = cx_l1_def cx_l2_def cx_rule_def cx_charLocations_def cx_game_def
  cx_group_def cx_pool_def cx_start_def cx_retry_frame_def cx_retry_state_def

lemmas solver_defs = getAvailableLocations_def
  updateAvailableCharacters_def bind_err_def addCharacterAt_def characterAt_def Characters_of_def
  addCharacter_def canAccessFuture_def canAccessDactylCharacter_def canAccessPrehistory_def
  hasMasamune_def hasKeyItem_def canAccess_def getAvailableLocationCount_def new_frame_def
  placementStep_def undoLocation_def selectLocation_def getWeight_def rand_randint_def
  rand_choice_def getLocations_def addLocation_def removeLocation_def decayWeight_def
  setWeight_def undoWeightDecay_def pruneKeyItems_def getKeyItemCount_def drawKeyItem_def
  addKeyItem_def undoKeyItem_def removeKeyItem_def Let_def
  determineKeyItemPlacement_impl.simps

declare determineKeyItemPlacement_impl.simps [simp del]

text \<open>
  A run on the small registry, with the random source that always answers 0. The only
  group is closed by tomapop. The first iteration places tomapop on \<open>A1\<close>, the
  recursive call finds no accessible group and returns False, and the loop goes round
  again.
\<close>

lemma cx_avail: "getAvailableLocations cx_start = Inr ([0], cx_start)"
  by (simp add: cx_defs solver_defs insert_commute)

lemma cx_first_iteration:
  "placementStep (\<lambda>i. 0) [0] (new_frame cx_pool) cx_start = Inr (cx_retry_frame, cx_retry_state)"
  by (simp add: cx_defs solver_defs)

lemma cx_child_fails:
  "determineKeyItemPlacement_impl (\<lambda>i. 0) limit fuel (remainingKeyItems cx_retry_frame) cx_retry_state
     = Returned (False, cx_retry_state)"
  by (simp add: cx_defs solver_defs insert_commute)

lemma placementLoop_numeral:
  "placementLoop rnd limit (numeral k) avail fr st =
     (case placementStep rnd avail fr st of
        Inl e \<Rightarrow> Raised e
      | Inr (fr', st') \<Rightarrow>
          (case limit of
             0 \<Rightarrow> Raised RecursionError
           | Suc limit' \<Rightarrow>
               (case determineKeyItemPlacement_impl rnd limit' (pred_numeral k)
                       (remainingKeyItems fr') st' of
                  Returned (keyItemConfirmed, st'') \<Rightarrow>
                    if keyItemConfirmed then Returned (keyItemConfirmed, st'')
                    else placementLoop rnd limit (pred_numeral k) avail fr' st''
                | Raised e \<Rightarrow> Raised e
                | OutOfFuel \<Rightarrow> OutOfFuel)))"
  by (simp add: numeral_eq_Suc)

text \<open>
  The whole run succeeds on the third placement. The location \<open>A1\<close> of the abandoned
  first attempt is still in the returned list, twice: \<^verbatim>\<open>chosenLocations\<close> is only ever
  appended to.
\<close>

lemma cx_run:
  "\<exists>st'. determineKeyItemPlacement_impl (\<lambda>i. 0) 3 3 cx_pool cx_start = Returned (True, st') \<and>
     chosenLocations st' = [cx_l1, cx_l2, cx_l1] \<and>
     map (keyItemOf st') (chosenLocations st') = [Some tomapop, Some jerky, Some tomapop]"
  by (simp add: cx_defs solver_defs insert_commute placementLoop_numeral)

section \<open>Key items, pools and one pass of the loop\<close>

lemma KeyItems_UNIV: "(UNIV :: KeyItems set) = set all_KeyItems"
proof -
  have "x \<in> set all_KeyItems" for x
    by (cases x) (simp_all add: all_KeyItems_def)
  then show ?thesis by auto
qed

lemma card_KeyItems: "card (UNIV :: KeyItems set) = 15"
proof -
  have "distinct all_KeyItems" by (simp add: all_KeyItems_def)
  then have "card (set all_KeyItems) = length all_KeyItems" by (rule distinct_card)
  then show ?thesis by (simp add: KeyItems_UNIV all_KeyItems_def)
qed

lemma finite_KeyItems: "finite (A :: KeyItems set)"
proof -
  have "A \<subseteq> set all_KeyItems"
    unfolding KeyItems_UNIV [symmetric] by simp
  then show ?thesis by (rule finite_subset) simp
qed

lemma set_dedupe: "set (dedupe acc xs) = set acc \<union> set xs"
  by (induction xs arbitrary: acc) auto

lemma distinct_dedupe: "distinct acc \<Longrightarrow> distinct (dedupe acc xs)"
  by (induction xs arbitrary: acc) auto

lemma count_list_distinct: "distinct xs \<Longrightarrow> count_list xs x = (if x \<in> set xs then 1 else 0)"
  by (induction xs) auto

lemma set_pruneKeyItems: "set (pruneKeyItems g pool) = set pool"
  by (simp add: pruneKeyItems_def set_dedupe)

lemma rand_choice_mem: "rand_choice xs r = Inr x \<Longrightarrow> x \<in> set xs"
  by (auto simp: rand_choice_def split: if_splits)

lemma undoLocation_game: "game (undoLocation fr st) = game st"
  by (simp add: undoLocation_def split: option.split)

lemma selectLocation_keeps:
  "selectLocation rnd avail fr st = Inr (fr1, st1) \<Longrightarrow>
     game st1 = game st \<and> keyItemOf st1 = keyItemOf st \<and>
     remainingKeyItems fr1 = remainingKeyItems fr \<and> keyItemTemp fr1 = keyItemTemp fr"
  by (auto simp: selectLocation_def Let_def bind_err_def
      split: sum.splits prod.splits option.splits)

lemma placementStep_keys:
  assumes "placementStep rnd avail fr st = Inr (fr', st')"
  shows "\<exists>k. k \<in> set (pruneKeyItems (game st) (remainingKeyItems fr)) \<and>
     keyItemTemp fr' = Some k \<and>
     remainingKeyItems fr' =
       filter (\<lambda>x. x \<noteq> k) (pruneKeyItems (game st) (remainingKeyItems fr)) @
         (case keyItemTemp fr of None \<Rightarrow> [] | Some kt \<Rightarrow> [kt]) \<and>
     keyItems (game st') =
       (case keyItemTemp fr of
          None \<Rightarrow> insert k (keyItems (game st))
        | Some kt \<Rightarrow> insert k (keyItems (game st)) - {kt})"
proof -
  from assms obtain fr1 st1 where
    sel: "selectLocation rnd avail fr (undoLocation fr st) = Inr (fr1, st1)"
    by (auto simp: placementStep_def bind_err_def split: sum.splits)
  from selectLocation_keeps [OF sel]
  have keep: "game st1 = game st" "remainingKeyItems fr1 = remainingKeyItems fr"
    "keyItemTemp fr1 = keyItemTemp fr"
    by (simp_all add: undoLocation_game)
  from assms sel obtain loc k where
    draw: "rand_choice (pruneKeyItems (game st1) (remainingKeyItems fr1)) (rnd (draws st1)) = Inr k"
    and res: "(case undoKeyItem (keyItemTemp fr1)
              (filter (\<lambda>x. x \<noteq> k) (pruneKeyItems (game st1) (remainingKeyItems fr1)))
              (st1\<lparr>keyItemOf := (keyItemOf st1)(loc \<mapsto> k),
                    game := addKeyItem (game st1) k, draws := Suc (draws st1)\<rparr>) of
         (pool3, st3) \<Rightarrow>
           (Inr (fr1\<lparr>keyItemTemp := Some k, remainingKeyItems := pool3\<rparr>, st3)
              :: error + frame \<times> solver_state)) = Inr (fr', st')"
    by (auto simp: placementStep_def bind_err_def drawKeyItem_def
        split: sum.splits option.splits)
  have mem: "k \<in> set (pruneKeyItems (game st) (remainingKeyItems fr))"
    using rand_choice_mem [OF draw] keep by simp
  show ?thesis
  proof (cases "keyItemTemp fr")
    case None
    with res keep mem show ?thesis
      by (auto simp: undoKeyItem_def addKeyItem_def)
  next
    case (Some kt)
    with res keep mem show ?thesis
      by (auto simp: undoKeyItem_def addKeyItem_def removeKeyItem_def)
  qed
qed

section \<open>The failure return\<close>

text \<open>
  C2, as the code has it. When \<open>determineKeyItemPlacement_impl\<close> finds no accessible
  group while the pool is not empty, it returns the flag False together with the list
  \<^verbatim>\<open>chosenLocations\<close> it was given, unchanged (the registry and the key item fields are
  unchanged too); it consumes no random number and needs no fuel.
\<close>

theorem failure_returns_chosen_list:
  assumes "pool \<noteq> []" and "getAvailableLocations st = Inr ([], st1)"
  shows "determineKeyItemPlacement_impl rnd limit fuel pool st = Returned (False, st1) \<and>
         chosenLocations st1 = chosenLocations st \<and>
         locationGroups st1 = locationGroups st \<and> keyItemOf st1 = keyItemOf st"
  using assms
  by (auto simp: determineKeyItemPlacement_impl.simps getAvailableLocations_def bind_err_def
      split: sum.splits)

theorem failure_returns_chosen_list_witness:
  "remainingKeyItems cx_retry_frame \<noteq> [] \<and>
   getAvailableLocations cx_retry_state = Inr ([], cx_retry_state) \<and>
   determineKeyItemPlacement_impl (\<lambda>i. 0) 3 3 (remainingKeyItems cx_retry_frame) cx_retry_state
     = Returned (False, cx_retry_state) \<and>
   chosenLocations cx_retry_state = [cx_l1]"
proof -
  have a: "remainingKeyItems cx_retry_frame \<noteq> []" by (simp add: cx_retry_frame_def)
  have b: "getAvailableLocations cx_retry_state = Inr ([], cx_retry_state)"
    by (simp add: cx_defs solver_defs insert_commute)
  from failure_returns_chosen_list [OF a b, of "\<lambda>i. 0" 3 3] a b show ?thesis
    by (simp add: cx_retry_state_def)
qed

text \<open>
  The returned list need not be empty: the recursive call of the run above fails with
  the provisional location \<open>A1\<close> in it.
\<close>

theorem failure_with_nonempty_list:
  "\<exists>st'. determineKeyItemPlacement_impl (\<lambda>i. 0) 3 3 [jerky] cx_retry_state = Returned (False, st') \<and>
     chosenLocations st' = [cx_l1] \<and> chosenLocations st' \<noteq> []"
  by (simp add: cx_defs solver_defs insert_commute)

section \<open>The retry iteration\<close>

text \<open>
  C3, as the code has it. In an iteration that follows a failed recursive call
  (\<open>locationGroup\<close>, \<open>location\<close> and \<open>keyItemTemp\<close> are set, the group's stack ends with
  the weight \<open>w\<close> it had before the decay, and all tokens of the previous key item are
  out of the pool): before the next group is selected, the previous location is back in
  its group and the group has its weight \<open>w\<close> and its earlier stack again, while the
  game still holds the previous key item. The next key item is drawn from the pool
  without the previous variant, so it is a different one. Only after that draw is the
  previous key item taken out of the game and put back into the pool.
\<close>

theorem retry_undo:
  assumes step: "placementStep rnd avail fr st = Inr (fr', st')"
    and lg: "locationGroup fr = Some i" and loc: "location fr = Some l"
    and kt: "keyItemTemp fr = Some kt"
    and i: "i < length (locationGroups st)"
    and ws: "weightStack (locationGroups st ! i) = ws @ [w]" and w: "1 \<le> w"
    and fresh: "kt \<notin> set (remainingKeyItems fr)"
  shows "l \<in> set (locations (locationGroups (undoLocation fr st) ! i)) \<and>
         weight (locationGroups (undoLocation fr st) ! i) = w \<and>
         weightStack (locationGroups (undoLocation fr st) ! i) = ws \<and>
         game (undoLocation fr st) = game st \<and>
         (\<exists>k. keyItemTemp fr' = Some k \<and> k \<in> set (remainingKeyItems fr) \<and> k \<noteq> kt \<and>
              k \<in> keyItems (game st') \<and> k \<notin> set (remainingKeyItems fr')) \<and>
         kt \<in> set (remainingKeyItems fr') \<and> kt \<notin> keyItems (game st')"
proof -
  have undo: "l \<in> set (locations (locationGroups (undoLocation fr st) ! i)) \<and>
         weight (locationGroups (undoLocation fr st) ! i) = w \<and>
         weightStack (locationGroups (undoLocation fr st) ! i) = ws"
    using lg loc i ws w
    by (simp add: undoLocation_def undoWeightDecay_def addLocation_def setWeight_def)
  from placementStep_keys [OF step] kt obtain k where
    k: "k \<in> set (pruneKeyItems (game st) (remainingKeyItems fr))"
      "keyItemTemp fr' = Some k"
      "remainingKeyItems fr' =
         filter (\<lambda>x. x \<noteq> k) (pruneKeyItems (game st) (remainingKeyItems fr)) @ [kt]"
      "keyItems (game st') = insert k (keyItems (game st)) - {kt}"
    by auto
  from k(1) have kin: "k \<in> set (remainingKeyItems fr)" by (simp add: set_pruneKeyItems)
  with fresh have neq: "k \<noteq> kt" by auto
  show ?thesis using undo k kin neq by (simp add: undoLocation_game)
qed

theorem retry_undo_witness:
  "\<exists>fr' st'. placementStep (\<lambda>i. 0) [0] cx_retry_frame cx_retry_state = Inr (fr', st') \<and>
     cx_l1 \<in> set (locations (locationGroups (undoLocation cx_retry_frame cx_retry_state) ! 0)) \<and>
     weight (locationGroups (undoLocation cx_retry_frame cx_retry_state) ! 0) = 5 \<and>
     keyItemTemp fr' = Some jerky \<and> remainingKeyItems fr' = [tomapop] \<and>
     keyItems (game st') = {jerky}"
proof -
  obtain fr' st' where
    step: "placementStep (\<lambda>i. 0) [0] cx_retry_frame cx_retry_state = Inr (fr', st')"
    and res: "keyItemTemp fr' = Some jerky" "remainingKeyItems fr' = [tomapop]"
      "keyItems (game st') = {jerky}"
    by (simp add: cx_defs solver_defs) auto
  have "cx_l1 \<in> set (locations (locationGroups (undoLocation cx_retry_frame cx_retry_state) ! 0)) \<and>
     weight (locationGroups (undoLocation cx_retry_frame cx_retry_state) ! 0) = 5"
    using retry_undo [OF step, of 0 cx_l1 tomapop "[]" 5]
    by (simp add: cx_defs)
  with step res show ?thesis by simp
qed

text \<open>
  The claim as stated fails on the run above. In the retry iteration, when the next
  location has been selected and the next key item is about to be drawn, tomapop is
  still in the game and not in the pool; after the iteration the pool holds one token of
  tomapop where the initial pool held two; and the abandoned location \<open>A1\<close> is still
  in \<^verbatim>\<open>chosenLocations\<close>, with tomapop assigned.
\<close>

theorem retry_not_undone_before_draw:
  "placementStep (\<lambda>i. 0) [0] (new_frame cx_pool) cx_start = Inr (cx_retry_frame, cx_retry_state) \<and>
   determineKeyItemPlacement_impl (\<lambda>i. 0) 3 2 (remainingKeyItems cx_retry_frame) cx_retry_state
     = Returned (False, cx_retry_state) \<and>
   (\<exists>fr1 st1. selectLocation (\<lambda>i. 0) [0] cx_retry_frame
        (undoLocation cx_retry_frame cx_retry_state) = Inr (fr1, st1) \<and>
      tomapop \<in> keyItems (game st1) \<and> tomapop \<notin> set (remainingKeyItems fr1)) \<and>
   (\<exists>fr' st'. placementStep (\<lambda>i. 0) [0] cx_retry_frame cx_retry_state = Inr (fr', st') \<and>
      count_list (remainingKeyItems fr') tomapop = 1 \<and>
      chosenLocations st' = [cx_l1, cx_l2] \<and>
      keyItemOf st' cx_l1 = Some tomapop) \<and>
   count_list cx_pool tomapop = 2"
  by (simp add: cx_defs solver_defs insert_commute)

section \<open>The collapse of the pool\<close>

text \<open>
  C4. In a pass of the loop entered with exactly 10 key items in the game and a pool of
  exactly the variants not in the game, the pool the key item is drawn from is collapsed:
  it holds one token of each of the 5 variants not in the game and nothing else. The key
  item is drawn from this collapsed pool, and the pool handed on is the collapsed pool
  without the drawn variant (and with the previous iteration's variant, in a retry).
\<close>

theorem collapse_at_ten:
  assumes step: "placementStep rnd avail fr st = Inr (fr', st')"
    and ten: "getKeyItemCount (game st) = 10"
    and pool: "set (remainingKeyItems fr) = UNIV - keyItems (game st)"
  shows "distinct (pruneKeyItems (game st) (remainingKeyItems fr)) \<and>
         set (pruneKeyItems (game st) (remainingKeyItems fr)) = UNIV - keyItems (game st) \<and>
         length (pruneKeyItems (game st) (remainingKeyItems fr)) = 5 \<and>
         (\<forall>k. count_list (pruneKeyItems (game st) (remainingKeyItems fr)) k =
                (if k \<in> keyItems (game st) then 0 else 1)) \<and>
         (\<exists>k. keyItemTemp fr' = Some k \<and>
              k \<in> set (pruneKeyItems (game st) (remainingKeyItems fr)) \<and>
              remainingKeyItems fr' =
                filter (\<lambda>x. x \<noteq> k) (pruneKeyItems (game st) (remainingKeyItems fr)) @
                  (case keyItemTemp fr of None \<Rightarrow> [] | Some kt \<Rightarrow> [kt]))"
proof -
  let ?p = "pruneKeyItems (game st) (remainingKeyItems fr)"
  have d: "distinct ?p"
    using ten by (simp add: pruneKeyItems_def distinct_dedupe)
  have s: "set ?p = UNIV - keyItems (game st)"
    using pool by (simp add: set_pruneKeyItems)
  have "card (UNIV - keyItems (game st)) = card (UNIV :: KeyItems set) - card (keyItems (game st))"
    by (rule card_Diff_subset) (simp_all add: finite_KeyItems)
  then have "card (set ?p) = 5"
    using ten s by (simp add: card_KeyItems getKeyItemCount_def)
  then have l: "length ?p = 5"
    using d by (simp add: distinct_card)
  have c: "\<forall>k. count_list ?p k = (if k \<in> keyItems (game st) then 0 else 1)"
    using d s by (simp add: count_list_distinct)
  from placementStep_keys [OF step] d s l c show ?thesis by blast
qed

theorem collapse_at_ten_witness:
  "\<exists>fr' st'. placementStep (\<lambda>i. 0) [0] (new_frame cx_ten_pool) cx_ten = Inr (fr', st') \<and>
     getKeyItemCount (game cx_ten) = 10 \<and>
     pruneKeyItems (game cx_ten) cx_ten_pool = [grandleon, heromedal, roboribbon, clone, ctrigger] \<and>
     keyItemTemp fr' = Some grandleon \<and>
     remainingKeyItems fr' = [heromedal, roboribbon, clone, ctrigger]"
proof -
  obtain fr' st' where
    step: "placementStep (\<lambda>i. 0) [0] (new_frame cx_ten_pool) cx_ten = Inr (fr', st')"
    and k: "keyItemTemp fr' = Some grandleon"
    by (simp add: cx_defs cx_ten_def cx_ten_pool_def solver_defs)
  have ten: "getKeyItemCount (game cx_ten) = 10"
    by (simp add: cx_ten_def cx_game_def getKeyItemCount_def)
  have pool: "set (remainingKeyItems (new_frame cx_ten_pool)) = UNIV - keyItems (game cx_ten)"
    by (auto simp: new_frame_def cx_ten_pool_def cx_ten_def cx_game_def KeyItems_UNIV
        all_KeyItems_def)
  have p: "pruneKeyItems (game cx_ten) cx_ten_pool
             = [grandleon, heromedal, roboribbon, clone, ctrigger]"
    using ten by (simp add: pruneKeyItems_def cx_ten_pool_def)
  from collapse_at_ten [OF step ten pool] k p step ten show ?thesis
    by (auto simp: new_frame_def)
qed

section \<open>Construction of the registry\<close>

lemma foldl_addLocation:
  "weight (foldl addLocation lg ls) = weight lg \<and>
   weightStack (foldl addLocation lg ls) = weightStack lg \<and>
   accessRule (foldl addLocation lg ls) = accessRule lg \<and>
   set (locations (foldl addLocation lg ls)) = set (locations lg) \<union> set ls"
  by (induction ls arbitrary: lg) (auto simp: addLocation_def)

text \<open>
  C6, as the code has it. Building a group checks nothing: the constructor stores any
  base weight as it is given, positive or not, and \<open>addLocation\<close> takes any location
  that is not yet in this same group, whatever other groups hold. No error is raised
  while the registry is built. A total weight below 1 of the accessible groups shows
  only when the solver asks for its first random number: \<^verbatim>\<open>rand.randint(1, weightTotal)\<close>
  raises ValueError.
\<close>

theorem construction_unchecked:
  "weight (foldl addLocation (LocationGroup_init nm w rule decay) ls) = w \<and>
   set (locations (foldl addLocation (LocationGroup_init nm w rule decay) ls)) = set ls \<and>
   (sum_list (map (\<lambda>i. getWeight (locationGroups st ! i)) avail) < 1 \<longrightarrow>
      selectLocation rnd avail fr st = Inl ValueError)"
proof -
  have "weight (foldl addLocation (LocationGroup_init nm w rule decay) ls) = w \<and>
   set (locations (foldl addLocation (LocationGroup_init nm w rule decay) ls)) = set ls"
    by (simp add: foldl_addLocation) (simp add: LocationGroup_init_def)
  moreover have "selectLocation rnd avail fr st = Inl ValueError"
    if "sum_list (map (\<lambda>i. getWeight (locationGroups st ! i)) avail) < 1"
    using that by (simp add: selectLocation_def Let_def rand_randint_def bind_err_def)
  ultimately show ?thesis by blast
qed

theorem construction_unchecked_witness:
  "weight (foldl addLocation (LocationGroup_init ''Bad'' (- 5) (\<lambda>g. True) None) [cx_l1, cx_l2])
     = - 5 \<and>
   set (locations (foldl addLocation (LocationGroup_init ''Bad'' (- 5) (\<lambda>g. True) None)
          [cx_l1, cx_l2])) = {cx_l1, cx_l2} \<and>
   sum_list (map (\<lambda>i. getWeight (locationGroups
       (cx_start\<lparr>locationGroups := [cx_group [cx_l1] 0 []]\<rparr>) ! i)) [0]) < 1 \<and>
   selectLocation (\<lambda>i. 0) [0] (new_frame cx_pool)
       (cx_start\<lparr>locationGroups := [cx_group [cx_l1] 0 []]\<rparr>) = Inl ValueError"
proof -
  have low: "sum_list (map (\<lambda>i. getWeight (locationGroups
       (cx_start\<lparr>locationGroups := [cx_group [cx_l1] 0 []]\<rparr>) ! i)) [0]) < 1"
    by (simp add: cx_start_def cx_group_def getWeight_def)
  from construction_unchecked [of "''Bad''" "- 5" "\<lambda>g. True" None "[cx_l1, cx_l2]"
      "cx_start\<lparr>locationGroups := [cx_group [cx_l1] 0 []]\<rparr>" "[0]" "\<lambda>i. 0" "new_frame cx_pool"]
    low
  show ?thesis by auto
qed

text \<open>
  The claim as stated fails: a group with base weight 0 and a second group holding the
  same location are built without any error, and the solver started on them raises
  ValueError at its first random draw.
\<close>

theorem malformed_registry_accepted:
  "weight (addLocation (LocationGroup_init ''Bad'' 0 (\<lambda>g. True) None) cx_l1) = 0 \<and>
   locations (addLocation (LocationGroup_init ''Bad'' 0 (\<lambda>g. True) None) cx_l1) = [cx_l1] \<and>
   locations (addLocation (LocationGroup_init ''Other'' (- 5) (\<lambda>g. True) None) cx_l1) = [cx_l1] \<and>
   determineKeyItemPlacement_impl (\<lambda>i. 0) 3 3 cx_pool
     \<lparr>locationGroups = [addLocation (LocationGroup_init ''Bad'' 0 (\<lambda>g. True) None) cx_l1,
                        addLocation (LocationGroup_init ''Other'' (- 5) (\<lambda>g. True) None) cx_l1],
      game = cx_game {}, chosenLocations = [], keyItemOf = Map.empty, draws = 0\<rparr>
     = Raised ValueError"
  by (simp add: cx_defs solver_defs LocationGroup_init_def insert_commute placementLoop_numeral)

section \<open>The recursion depth\<close>

lemma bind_err_Inl_iff:
  "bind_err m f = Inl e \<longleftrightarrow> m = Inl e \<or> (\<exists>x. m = Inr x \<and> f x = Inl e)"
  by (cases m) (simp_all add: bind_err_def)

lemma bind_err_Inr_iff:
  "bind_err m f = Inr y \<longleftrightarrow> (\<exists>x. m = Inr x \<and> f x = Inr y)"
  by (cases m) (simp_all add: bind_err_def)

lemma addCharacterAt_no_RecursionError: "addCharacterAt g slot \<noteq> Inl RecursionError"
  by (auto simp: addCharacterAt_def characterAt_def Characters_of_def
      split: sum.splits option.splits list.splits if_splits)

lemma updateAvailableCharacters_no_RecursionError:
  "updateAvailableCharacters g \<noteq> Inl RecursionError"
  by (simp add: updateAvailableCharacters_def bind_err_Inl_iff
      addCharacterAt_no_RecursionError)

lemma getAvailableLocations_no_RecursionError:
  "getAvailableLocations st \<noteq> Inl RecursionError"
  by (simp add: getAvailableLocations_def bind_err_Inl_iff
      updateAvailableCharacters_no_RecursionError)

lemma selectLocation_no_RecursionError:
  "selectLocation rnd avail fr st \<noteq> Inl RecursionError"
  by (auto simp: selectLocation_def Let_def bind_err_Inl_iff rand_randint_def
      rand_choice_def removeLocation_def split: prod.splits option.splits if_splits)

lemma placementStep_no_RecursionError:
  "placementStep rnd avail fr st \<noteq> Inl RecursionError"
  by (auto simp: placementStep_def bind_err_Inl_iff selectLocation_no_RecursionError
      drawKeyItem_def rand_choice_def split: prod.splits option.splits if_splits)

lemma step_variants:
  assumes step: "placementStep rnd avail fr st = Inr (fr', st')"
    and fresh: "frame_fresh fr"
  shows "frame_variants fr' = frame_variants fr" and "frame_fresh fr'"
    and "card (set (remainingKeyItems fr')) < card (frame_variants fr)"
proof -
  from placementStep_keys [OF step] obtain k where
    k: "k \<in> set (pruneKeyItems (game st) (remainingKeyItems fr))" "keyItemTemp fr' = Some k"
    and r: "remainingKeyItems fr' =
       filter (\<lambda>x. x \<noteq> k) (pruneKeyItems (game st) (remainingKeyItems fr)) @
         (case keyItemTemp fr of None \<Rightarrow> [] | Some kt \<Rightarrow> [kt])"
    by blast
  from k(1) have kin: "k \<in> set (remainingKeyItems fr)"
    by (simp add: set_pruneKeyItems)
  from r have s: "set (remainingKeyItems fr') =
         (set (remainingKeyItems fr) - {k}) \<union> set_option (keyItemTemp fr)"
    by (auto simp: set_pruneKeyItems split: option.splits)
  from fresh kin have neq: "k \<notin> set_option (keyItemTemp fr)"
    by (auto simp: frame_fresh_def)
  show v: "frame_variants fr' = frame_variants fr"
    using k(2) kin s by (auto simp: frame_variants_def)
  show f: "frame_fresh fr'"
    using k(2) s neq by (auto simp: frame_fresh_def)
  have "set (remainingKeyItems fr') = frame_variants fr - {k}"
    using s neq by (auto simp: frame_variants_def)
  moreover have "k \<in> frame_variants fr"
    using kin by (simp add: frame_variants_def)
  ultimately show "card (set (remainingKeyItems fr')) < card (frame_variants fr)"
    using card_Diff1_less [of "frame_variants fr" k] by (simp add: finite_KeyItems)
qed

lemma impl_from_loop:
  assumes "\<And>avail fr st. card (frame_variants fr) \<le> limit \<Longrightarrow> frame_fresh fr \<Longrightarrow>
      placementLoop rnd limit fuel avail fr st \<noteq> Raised RecursionError"
    and "card (set pool) \<le> limit"
  shows "determineKeyItemPlacement_impl rnd limit fuel pool st \<noteq> Raised RecursionError"
proof (cases "getAvailableLocations st")
  case (Inl e)
  with getAvailableLocations_no_RecursionError [of st] show ?thesis
    by (auto simp: determineKeyItemPlacement_impl.simps)
next
  case (Inr p)
  obtain avail st1 where p: "p = (avail, st1)" by (cases p)
  have "placementLoop rnd limit fuel avail (new_frame pool) st1 \<noteq> Raised RecursionError"
    using assms(2) by (intro assms(1)) (simp_all add: frame_variants_def frame_fresh_def new_frame_def)
  with Inr p show ?thesis by (simp add: determineKeyItemPlacement_impl.simps)
qed

lemma no_RecursionError:
  "(\<forall>limit pool st. card (set pool) \<le> limit \<longrightarrow>
      determineKeyItemPlacement_impl rnd limit fuel pool st \<noteq> Raised RecursionError) \<and>
   (\<forall>limit avail fr st. card (frame_variants fr) \<le> limit \<longrightarrow> frame_fresh fr \<longrightarrow>
      placementLoop rnd limit fuel avail fr st \<noteq> Raised RecursionError)"
proof (induction fuel)
  case 0
  have loop: "placementLoop rnd limit 0 avail fr st \<noteq> Raised RecursionError"
    for limit avail fr st by simp
  with impl_from_loop [of _ rnd 0] show ?case by blast
next
  case (Suc fuel)
  then have impl: "\<And>limit pool st. card (set pool) \<le> limit \<Longrightarrow>
      determineKeyItemPlacement_impl rnd limit fuel pool st \<noteq> Raised RecursionError"
    and loop: "\<And>limit avail fr st. card (frame_variants fr) \<le> limit \<Longrightarrow> frame_fresh fr \<Longrightarrow>
      placementLoop rnd limit fuel avail fr st \<noteq> Raised RecursionError"
    by blast+
  have loopS: "placementLoop rnd limit (Suc fuel) avail fr st \<noteq> Raised RecursionError"
    if le: "card (frame_variants fr) \<le> limit" and fresh: "frame_fresh fr"
    for limit avail fr st
  proof (cases "placementStep rnd avail fr st")
    case (Inl e)
    with placementStep_no_RecursionError [of rnd avail fr st] show ?thesis by auto
  next
    case (Inr p)
    obtain fr' st' where p: "p = (fr', st')" by (cases p)
    note step = Inr [unfolded p]
    note sv = step_variants [OF step fresh]
    from sv(3) le obtain limit' where limit: "limit = Suc limit'"
      and le': "card (set (remainingKeyItems fr')) \<le> limit'"
      by (cases limit) auto
    from sv(1) le have le'': "card (frame_variants fr') \<le> limit" by simp
    show ?thesis
      using step limit impl [OF le'] loop [OF le'' sv(2)]
      by (auto split: outcome.splits)
  qed
  with impl_from_loop [of _ rnd "Suc fuel"] show ?case by blast
qed

section \<open>The placement of a run\<close>

subsection \<open>One pass of the loop keeps the invariant\<close>

lemma all_locations_update:
  assumes "i < length gs" and "l \<in> set (locations (gs ! i))"
    and "locations g' = remove1 l (locations (gs ! i))"
    and "distinct (all_locations gs)"
  shows "distinct (all_locations (gs[i := g'])) \<and>
         set (all_locations (gs[i := g'])) = set (all_locations gs) - {l}"
  using assms
proof (induction gs arbitrary: i)
  case Nil
  then show ?case by simp
next
  case (Cons g gs)
  show ?case
  proof (cases i)
    case 0
    with Cons.prems show ?thesis
      by (auto simp: all_locations_def)
  next
    case (Suc j)
    with Cons.prems have j: "j < length gs" "l \<in> set (locations (gs ! j))"
      "locations g' = remove1 l (locations (gs ! j))" "distinct (all_locations gs)"
      by (auto simp: all_locations_def)
    from j(1,2) have "gs ! j \<in> set gs" by simp
    with j(2) have lin: "l \<in> (\<Union>a\<in>set gs. set (locations a))" by blast
    from Cons.IH [OF j] Suc Cons.prems lin show ?thesis
      by (auto simp: all_locations_def)
  qed
qed

lemma selectGroup_hit:
  "counter < c \<Longrightarrow> c \<le> counter + sum_list (map (\<lambda>i. getWeight (gs ! i)) avail) \<Longrightarrow>
     \<exists>gi \<in> set avail. selectGroup gs avail counter c lg grp = (Some gi, Some gi)"
proof (induction avail arbitrary: counter grp)
  case Nil
  then show ?case by simp
next
  case (Cons i rest)
  show ?case
  proof (cases "counter + getWeight (gs ! i) \<ge> c")
    case True
    then show ?thesis by (simp add: Let_def)
  next
    case False
    with Cons.prems have "counter + getWeight (gs ! i) < c"
      "c \<le> (counter + getWeight (gs ! i)) + sum_list (map (\<lambda>i. getWeight (gs ! i)) rest)"
      by simp_all
    from Cons.IH [OF this, of "Some i"] False show ?thesis
      by (auto simp: Let_def)
  qed
qed

lemma sum_list_weights:
  "\<forall>x \<in> set xs. (1::int) \<le> f x \<Longrightarrow> int (length xs) \<le> sum_list (map f xs)"
  by (induction xs) auto

lemma rand_randint_range:
  "1 \<le> b \<Longrightarrow> \<exists>c. rand_randint 1 b r = Inr c \<and> 1 \<le> c \<and> c \<le> b"
proof -
  assume b: "1 \<le> b"
  have "r mod nat b < nat b" using b by simp
  then have "1 + int (r mod nat b) \<le> b" by linarith
  with b show ?thesis by (simp add: rand_randint_def)
qed

lemma rand_choice_total: "xs \<noteq> [] \<Longrightarrow> \<exists>x \<in> set xs. rand_choice xs r = Inr x"
  by (simp add: rand_choice_def)

lemma selectLocation_ok:
  assumes avail: "avail \<noteq> []"
    "\<forall>i \<in> set avail. i < length (locationGroups st) \<and> locations (locationGroups st ! i) \<noteq> []"
    and w: "\<forall>g \<in> set (locationGroups st). 1 \<le> weight g"
  shows "\<exists>gi loc. gi \<in> set avail \<and> loc \<in> set (locations (locationGroups st ! gi)) \<and>
     selectLocation rnd avail fr st =
       Inr (fr\<lparr>location := Some loc, locationGroup := Some gi\<rparr>,
            st\<lparr>locationGroups := (locationGroups st)
                  [gi := decayWeight ((locationGroups st ! gi)
                           \<lparr>locations := remove1 loc (locations (locationGroups st ! gi))\<rparr>)],
               chosenLocations := chosenLocations st @ [loc],
               draws := draws st + 2\<rparr>)"
proof -
  let ?gs = "locationGroups st"
  let ?wt = "sum_list (map (\<lambda>i. getWeight (?gs ! i)) avail)"
  have "\<forall>i \<in> set avail. 1 \<le> getWeight (?gs ! i)"
    using avail(2) w by (auto simp: getWeight_def)
  then have "int (length avail) \<le> ?wt" by (rule sum_list_weights)
  with avail(1) have "1 \<le> ?wt" by (cases avail) auto
  from rand_randint_range [OF this] obtain c where
    c: "rand_randint 1 ?wt (rnd (draws st)) = Inr c" "1 \<le> c" "c \<le> ?wt"
    by blast
  from selectGroup_hit [of 0 c ?gs avail "locationGroup fr"
      "if avail = [] then None else Some (last avail)"] c
  obtain gi where
    gi: "gi \<in> set avail"
      "selectGroup ?gs avail 0 c (locationGroup fr)
         (if avail = [] then None else Some (last avail)) = (Some gi, Some gi)"
    by auto
  from gi(1) avail(2) have "locations (?gs ! gi) \<noteq> []" by simp
  from rand_choice_total [OF this] obtain loc where
    loc: "loc \<in> set (locations (?gs ! gi))"
      "rand_choice (locations (?gs ! gi)) (rnd (draws st + 1)) = Inr loc"
    by blast
  have "selectLocation rnd avail fr st =
       Inr (fr\<lparr>location := Some loc, locationGroup := Some gi\<rparr>,
            st\<lparr>locationGroups := ?gs
                  [gi := decayWeight ((?gs ! gi)
                           \<lparr>locations := remove1 loc (locations (?gs ! gi))\<rparr>)],
               chosenLocations := chosenLocations st @ [loc],
               draws := draws st + 2\<rparr>)"
    using c(1) gi(2) loc
    by (simp add: selectLocation_def Let_def bind_err_def getLocations_def removeLocation_def)
  with gi(1) loc(1) show ?thesis by blast
qed


lemma placementStep_first:
  assumes inv: "solver_inv pool st" and ne: "pool \<noteq> []"
    and avail: "avail \<noteq> []"
      "\<forall>i \<in> set avail. i < length (locationGroups st) \<and> locations (locationGroups st ! i) \<noteq> []"
  shows "\<exists>fr' st'. placementStep rnd avail (new_frame pool) st = Inr (fr', st') \<and>
           solver_inv (remainingKeyItems fr') st' \<and>
           card (set (remainingKeyItems fr')) < card (set pool) \<and>
           charLocations (game st') = charLocations (game st)"
proof -
  let ?gs = "locationGroups st"
  from inv have w: "\<forall>g \<in> set ?gs. 1 \<le> weight g"
    and d: "distinct (all_locations ?gs @ chosenLocations st)"
    and cap: "\<exists>g \<in> set ?gs. (\<forall>gm. accessRule g gm) \<and> card (set pool) \<le> length (locations g)"
    and keys: "\<exists>ks. map (keyItemOf st) (chosenLocations st) = map Some ks \<and> distinct ks \<and>
           set ks = UNIV - set pool"
    and gk: "keyItems (game st) = UNIV - set pool"
    by (simp_all add: solver_inv_def)
  have undo: "undoLocation (new_frame pool) st = st"
    by (simp add: undoLocation_def new_frame_def)
  from selectLocation_ok [OF avail w, of rnd "new_frame pool"] obtain gi loc where
    gi: "gi \<in> set avail" and loc: "loc \<in> set (locations (?gs ! gi))"
    and sel: "selectLocation rnd avail (new_frame pool) st =
       Inr ((new_frame pool)\<lparr>location := Some loc, locationGroup := Some gi\<rparr>,
            st\<lparr>locationGroups := ?gs
                  [gi := decayWeight ((?gs ! gi)
                           \<lparr>locations := remove1 loc (locations (?gs ! gi))\<rparr>)],
               chosenLocations := chosenLocations st @ [loc],
               draws := draws st + 2\<rparr>)"
    by blast
  define g' where
    "g' = decayWeight ((?gs ! gi)\<lparr>locations := remove1 loc (locations (?gs ! gi))\<rparr>)"
  define st1 where
    "st1 = st\<lparr>locationGroups := ?gs[gi := g'],
              chosenLocations := chosenLocations st @ [loc], draws := draws st + 2\<rparr>"
  let ?p = "pruneKeyItems (game st) pool"
  have sp: "set ?p = set pool" by (rule set_pruneKeyItems)
  with ne have pne: "?p \<noteq> []" by auto
  from rand_choice_total [OF pne] obtain k where
    k: "k \<in> set ?p" "rand_choice ?p (rnd (draws st1)) = Inr k"
    by blast
  define pool' where "pool' = filter (\<lambda>x. x \<noteq> k) ?p"
  define fr' where
    "fr' = \<lparr>location = Some loc, locationGroup = Some gi, keyItemTemp = Some k,
            remainingKeyItems = pool'\<rparr>"
  define st' where
    "st' = st1\<lparr>keyItemOf := (keyItemOf st)(loc \<mapsto> k), game := addKeyItem (game st) k,
               draws := draws st1 + 1\<rparr>"
  have step: "placementStep rnd avail (new_frame pool) st = Inr (fr', st')"
    unfolding placementStep_def undo sel using k(2)
    by (simp add: bind_err_def drawKeyItem_def undoKeyItem_def
        new_frame_def fr'_def st'_def st1_def g'_def pool'_def)
  have gi_lt: "gi < length ?gs" using gi avail(2) by simp
  have g'loc: "locations g' = remove1 loc (locations (?gs ! gi))"
    by (simp add: g'_def decayWeight_def Let_def setWeight_def split: option.split)
  have g'acc: "accessRule g' = accessRule (?gs ! gi)"
    by (simp add: g'_def decayWeight_def Let_def setWeight_def split: option.split)
  have g'w: "1 \<le> weight g'" by (simp add: g'_def weight_decayWeight)
  have kin: "k \<in> set pool" using k(1) sp by simp
  have spool': "set pool' = set pool - {k}" using sp by (auto simp: pool'_def)
  have card': "card (set pool') < card (set pool)"
    using card_Diff1_less [of "set pool" k] kin spool' by simp
  have i1: "\<forall>g \<in> set (?gs[gi := g']). 1 \<le> weight g"
    using w g'w set_update_subset_insert [of ?gs gi g'] by auto
  have d1: "distinct (all_locations ?gs)" using d by simp
  from all_locations_update [OF gi_lt loc g'loc d1]
  have dn: "distinct (all_locations (?gs[gi := g']))"
    and sn: "set (all_locations (?gs[gi := g'])) = set (all_locations ?gs) - {loc}"
    by simp_all
  have loc_all: "loc \<in> set (all_locations ?gs)"
    using gi_lt loc nth_mem [OF gi_lt] by (auto simp: all_locations_def)
  with d have loc_new: "loc \<notin> set (chosenLocations st)" by auto
  have i2: "distinct (all_locations (?gs[gi := g']) @ chosenLocations st @ [loc])"
    using dn sn d loc_new by auto
  from cap obtain g0 where g0: "g0 \<in> set ?gs" "\<forall>gm. accessRule g0 gm"
    "card (set pool) \<le> length (locations g0)"
    by blast
  from g0(1) obtain j where j: "j < length ?gs" "?gs ! j = g0"
    by (auto simp: in_set_conv_nth)
  have i3: "\<exists>g \<in> set (?gs[gi := g']).
      (\<forall>gm. accessRule g gm) \<and> card (set pool') \<le> length (locations g)"
  proof (cases "j = gi")
    case True
    have "g' \<in> set (?gs[gi := g'])" using gi_lt by (rule set_update_memI)
    moreover have "\<forall>gm. accessRule g' gm" using g0(2) j(2) True g'acc by simp
    moreover have "length (locations g') = length (locations g0) - 1"
      using g'loc loc j(2) True by (simp add: length_remove1)
    ultimately show ?thesis using card' g0(3) by (intro bexI [of _ g']) auto
  next
    case False
    then have "(?gs[gi := g']) ! j = g0" using j by simp
    moreover have "j < length (?gs[gi := g'])" using j(1) by simp
    ultimately have "g0 \<in> set (?gs[gi := g'])" using nth_mem by metis
    then show ?thesis using g0(2,3) card' by (intro bexI [of _ g0]) auto
  qed
  from keys obtain ks where ks: "map (keyItemOf st) (chosenLocations st) = map Some ks"
    "distinct ks" "set ks = UNIV - set pool"
    by blast
  have "map ((keyItemOf st)(loc \<mapsto> k)) (chosenLocations st) = map (keyItemOf st) (chosenLocations st)"
    using loc_new by (simp add: map_fun_upd)
  with ks(1) have m: "map ((keyItemOf st)(loc \<mapsto> k)) (chosenLocations st @ [loc]) = map Some (ks @ [k])"
    by simp
  have "distinct (ks @ [k])" using ks(2,3) kin by auto
  moreover have "set (ks @ [k]) = UNIV - set pool'" using ks(3) kin spool' by auto
  ultimately have i4: "\<exists>ks'. map ((keyItemOf st)(loc \<mapsto> k)) (chosenLocations st @ [loc]) = map Some ks' \<and>
      distinct ks' \<and> set ks' = UNIV - set pool'"
    using m by blast
  have i5: "insert k (keyItems (game st)) = UNIV - set pool'"
    using gk kin spool' by auto
  have "solver_inv (remainingKeyItems fr') st'"
    using i1 i2 i3 i4 i5 by (simp add: solver_inv_def fr'_def st'_def st1_def addKeyItem_def)
  moreover have "card (set (remainingKeyItems fr')) < card (set pool)"
    using card' by (simp add: fr'_def)
  moreover have "charLocations (game st') = charLocations (game st)"
    by (simp add: st'_def addKeyItem_def)
  ultimately show ?thesis using step by blast
qed


subsection \<open>Every result is a full placement\<close>

lemma addCharacterAt_keyItems:
  "addCharacterAt g slot = Inr g' \<Longrightarrow> keyItems g' = keyItems g"
  by (auto simp: addCharacterAt_def addCharacter_def split: sum.splits)

lemma addCharacterAt_if_keyItems:
  "(if c then addCharacterAt g slot else Inr g) = Inr g' \<Longrightarrow> keyItems g' = keyItems g"
  by (cases c) (auto dest: addCharacterAt_keyItems)

lemma updateAvailableCharacters_keyItems:
  assumes "updateAvailableCharacters g = Inr g'"
  shows "keyItems g' = keyItems g"
proof -
  from assms obtain g1 g2 g3 g4 g5 g6 where
    s: "addCharacterAt g ''start'' = Inr g1" "addCharacterAt g1 ''start2'' = Inr g2"
      "addCharacterAt g2 ''cathedral'' = Inr g3" "addCharacterAt g3 ''castle'' = Inr g4"
    and c: "(if canAccessFuture g4 then addCharacterAt g4 ''proto'' else Inr g4) = Inr g5"
      "(if canAccessDactylCharacter g5 then addCharacterAt g5 ''dactyl'' else Inr g5) = Inr g6"
      "(if hasMasamune g6 then addCharacterAt g6 ''burrow'' else Inr g6) = Inr g'"
    unfolding updateAvailableCharacters_def bind_err_Inr_iff by blast
  have "keyItems g' = keyItems g6" using c(3) by (rule addCharacterAt_if_keyItems)
  also have "\<dots> = keyItems g5" using c(2) by (rule addCharacterAt_if_keyItems)
  also have "\<dots> = keyItems g4" using c(1) by (rule addCharacterAt_if_keyItems)
  also have "\<dots> = keyItems g3" using s(4) by (rule addCharacterAt_keyItems)
  also have "\<dots> = keyItems g2" using s(3) by (rule addCharacterAt_keyItems)
  also have "\<dots> = keyItems g1" using s(2) by (rule addCharacterAt_keyItems)
  also have "\<dots> = keyItems g" using s(1) by (rule addCharacterAt_keyItems)
  finally show ?thesis .
qed

lemma getAvailableLocations_Inr:
  assumes "getAvailableLocations st = Inr (avail, st1)"
  shows "\<exists>g'. updateAvailableCharacters (game st) = Inr g' \<and> st1 = st\<lparr>game := g'\<rparr> \<and>
     avail = filter (\<lambda>i. canAccess (locationGroups st ! i) g' \<and>
                         0 < getAvailableLocationCount (locationGroups st ! i))
               [0..<length (locationGroups st)]"
  using assms by (auto simp: getAvailableLocations_def bind_err_Inr_iff)

lemma avail_props:
  assumes inv: "solver_inv pool st" and ne: "pool \<noteq> []"
    and av: "getAvailableLocations st = Inr (avail, st1)"
  shows "solver_inv pool st1" and "avail \<noteq> []"
    and "\<forall>i \<in> set avail. i < length (locationGroups st1) \<and> locations (locationGroups st1 ! i) \<noteq> []"
proof -
  from getAvailableLocations_Inr [OF av] obtain g' where
    upd: "updateAvailableCharacters (game st) = Inr g'"
    and st1: "st1 = st\<lparr>game := g'\<rparr>"
    and avail: "avail = filter (\<lambda>i. canAccess (locationGroups st ! i) g' \<and>
                         0 < getAvailableLocationCount (locationGroups st ! i))
               [0..<length (locationGroups st)]"
    by blast
  show "solver_inv pool st1"
    using inv updateAvailableCharacters_keyItems [OF upd] by (simp add: solver_inv_def st1)
  show "\<forall>i \<in> set avail. i < length (locationGroups st1) \<and> locations (locationGroups st1 ! i) \<noteq> []"
    by (auto simp: avail st1 getAvailableLocationCount_def)
  from inv obtain g0 where g0: "g0 \<in> set (locationGroups st)" "\<forall>gm. accessRule g0 gm"
    "card (set pool) \<le> length (locations g0)"
    by (auto simp: solver_inv_def)
  from g0(1) obtain j where j: "j < length (locationGroups st)" "locationGroups st ! j = g0"
    by (auto simp: in_set_conv_nth)
  from ne have "0 < card (set pool)" by (simp add: card_gt_0_iff)
  with g0(3) have "0 < length (locations g0)" by linarith
  with j g0(2) have "j \<in> set avail"
    by (simp add: avail canAccess_def getAvailableLocationCount_def)
  then show "avail \<noteq> []" by auto
qed

lemma impl_from_loop_correct:
  assumes loop: "\<And>avail pool st b st'. solver_inv pool st \<Longrightarrow> pool \<noteq> [] \<Longrightarrow> avail \<noteq> [] \<Longrightarrow>
      \<forall>i \<in> set avail. i < length (locationGroups st) \<and> locations (locationGroups st ! i) \<noteq> [] \<Longrightarrow>
      placementLoop rnd limit fuel avail (new_frame pool) st = Returned (b, st') \<Longrightarrow>
      b \<and> solver_inv [] st'"
    and inv: "solver_inv pool st"
    and ret: "determineKeyItemPlacement_impl rnd limit fuel pool st = Returned (b, st')"
  shows "b \<and> solver_inv [] st'"
proof (cases "pool = []")
  case True
  with inv ret show ?thesis by (auto simp: determineKeyItemPlacement_impl.simps)
next
  case False
  show ?thesis
  proof (cases "getAvailableLocations st")
    case (Inl e)
    with ret False show ?thesis by (simp add: determineKeyItemPlacement_impl.simps)
  next
    case (Inr p)
    obtain avail st1 where p: "p = (avail, st1)" by (cases p)
    note av = Inr [unfolded p]
    note ap = avail_props [OF inv False av]
    from ret False av ap(2)
    have "placementLoop rnd limit fuel avail (new_frame pool) st1 = Returned (b, st')"
      by (simp add: determineKeyItemPlacement_impl.simps)
    from loop [OF ap(1) False ap(2) ap(3) this] show ?thesis .
  qed
qed

lemma impl_correct:
  "(\<forall>limit pool st b st'. solver_inv pool st \<longrightarrow>
      determineKeyItemPlacement_impl rnd limit fuel pool st = Returned (b, st') \<longrightarrow>
      b \<and> solver_inv [] st') \<and>
   (\<forall>limit avail pool st b st'. solver_inv pool st \<longrightarrow> pool \<noteq> [] \<longrightarrow> avail \<noteq> [] \<longrightarrow>
      (\<forall>i \<in> set avail. i < length (locationGroups st) \<and> locations (locationGroups st ! i) \<noteq> []) \<longrightarrow>
      placementLoop rnd limit fuel avail (new_frame pool) st = Returned (b, st') \<longrightarrow>
      b \<and> solver_inv [] st')"
proof (induction fuel)
  case 0
  have "\<And>limit avail pool st b st'.
      placementLoop rnd limit 0 avail (new_frame pool) st = Returned (b, st') \<Longrightarrow>
      b \<and> solver_inv [] st'"
    by simp
  with impl_from_loop_correct [of rnd _ 0] show ?case by blast
next
  case (Suc fuel)
  then have impl: "\<And>limit pool st b st'. solver_inv pool st \<Longrightarrow>
      determineKeyItemPlacement_impl rnd limit fuel pool st = Returned (b, st') \<Longrightarrow>
      b \<and> solver_inv [] st'"
    by blast
  have loopS: "b \<and> solver_inv [] st'"
    if inv: "solver_inv pool st" and ne: "pool \<noteq> []" and av: "avail \<noteq> []"
      "\<forall>i \<in> set avail. i < length (locationGroups st) \<and> locations (locationGroups st ! i) \<noteq> []"
      and ret: "placementLoop rnd limit (Suc fuel) avail (new_frame pool) st = Returned (b, st')"
    for limit avail pool st b st'
  proof -
    from placementStep_first [OF inv ne av, of rnd] obtain fr1 st1 where
      step: "placementStep rnd avail (new_frame pool) st = Inr (fr1, st1)"
      and inv1: "solver_inv (remainingKeyItems fr1) st1"
      by blast
    from ret step obtain limit' where limit: "limit = Suc limit'"
      by (cases limit) auto
    show ?thesis
    proof (cases "determineKeyItemPlacement_impl rnd limit' fuel (remainingKeyItems fr1) st1")
      case (Returned r)
      obtain b1 st2 where r: "r = (b1, st2)" by (cases r)
      from impl [OF inv1 Returned [unfolded r]] have "b1" "solver_inv [] st2" by simp_all
      with ret step limit Returned r show ?thesis by simp
    next
      case (Raised e)
      with ret step limit show ?thesis by simp
    next
      case OutOfFuel
      with ret step limit show ?thesis by simp
    qed
  qed
  with impl_from_loop_correct [of rnd _ "Suc fuel"] show ?case by blast
qed


subsection \<open>Every run with enough fuel returns\<close>

lemma Characters_of_total: "0 \<le> i \<Longrightarrow> i \<le> 6 \<Longrightarrow> \<exists>c. Characters_of i = Inr c"
  by (simp add: Characters_of_def)

lemma addCharacterAt_charLocations:
  "addCharacterAt g slot = Inr g' \<Longrightarrow> charLocations g' = charLocations g"
  by (auto simp: addCharacterAt_def addCharacter_def split: sum.splits)

lemma addCharacterAt_total:
  assumes "valid_charLocations (charLocations g)"
    and "slot \<in> set [''start'', ''start2'', ''cathedral'', ''castle'', ''proto'', ''dactyl'',
                     ''burrow'']"
  shows "\<exists>g'. addCharacterAt g slot = Inr g' \<and> valid_charLocations (charLocations g')"
proof -
  from assms obtain i rest where
    "charLocations g slot = Some (i # rest)" "0 \<le> i" "i \<le> 6"
    unfolding valid_charLocations_def by blast
  with Characters_of_total [of i] obtain c where "characterAt g slot = Inr c"
    by (auto simp: characterAt_def)
  then have "addCharacterAt g slot = Inr (addCharacter g c)"
    by (simp add: addCharacterAt_def)
  with assms(1) show ?thesis by (simp add: addCharacter_def)
qed

lemma updateAvailableCharacters_total:
  assumes v: "valid_charLocations (charLocations g)"
  shows "\<exists>g'. updateAvailableCharacters g = Inr g' \<and> charLocations g' = charLocations g"
proof -
  from addCharacterAt_total [OF v, of "''start''"] obtain g1 where
    g1: "addCharacterAt g ''start'' = Inr g1" "valid_charLocations (charLocations g1)" by auto
  from addCharacterAt_total [OF g1(2), of "''start2''"] obtain g2 where
    g2: "addCharacterAt g1 ''start2'' = Inr g2" "valid_charLocations (charLocations g2)" by auto
  from addCharacterAt_total [OF g2(2), of "''cathedral''"] obtain g3 where
    g3: "addCharacterAt g2 ''cathedral'' = Inr g3" "valid_charLocations (charLocations g3)" by auto
  from addCharacterAt_total [OF g3(2), of "''castle''"] obtain g4 where
    g4: "addCharacterAt g3 ''castle'' = Inr g4" "valid_charLocations (charLocations g4)" by auto
  from addCharacterAt_total [OF g4(2), of "''proto''"] g4(2) obtain g5 where
    g5: "(if canAccessFuture g4 then addCharacterAt g4 ''proto'' else Inr g4) = Inr g5"
      "valid_charLocations (charLocations g5)" by (cases "canAccessFuture g4") auto
  from addCharacterAt_total [OF g5(2), of "''dactyl''"] g5(2) obtain g6 where
    g6: "(if canAccessDactylCharacter g5 then addCharacterAt g5 ''dactyl'' else Inr g5) = Inr g6"
      "valid_charLocations (charLocations g6)" by (cases "canAccessDactylCharacter g5") auto
  from addCharacterAt_total [OF g6(2), of "''burrow''"] g6(2) obtain g7 where
    g7: "(if hasMasamune g6 then addCharacterAt g6 ''burrow'' else Inr g6) = Inr g7"
    by (cases "hasMasamune g6") auto
  have u: "updateAvailableCharacters g = Inr g7"
    unfolding updateAvailableCharacters_def using g1(1) g2(1) g3(1) g4(1) g5(1) g6(1) g7
    by (simp add: bind_err_def)
  have "charLocations g7 = charLocations g"
    using g1(1) g2(1) g3(1) g4(1) g5(1) g6(1) g7
    by (auto dest!: addCharacterAt_charLocations split: if_splits)
  with u show ?thesis by blast
qed

lemma getAvailableLocations_total:
  assumes "valid_charLocations (charLocations (game st))"
  shows "\<exists>avail st1. getAvailableLocations st = Inr (avail, st1) \<and>
           charLocations (game st1) = charLocations (game st)"
proof -
  from updateAvailableCharacters_total [OF assms] obtain g' where
    "updateAvailableCharacters (game st) = Inr g'" "charLocations g' = charLocations (game st)"
    by blast
  then show ?thesis by (simp add: getAvailableLocations_def bind_err_def)
qed

lemma impl_from_loop_total:
  assumes loop: "\<And>avail pool st. solver_inv pool st \<Longrightarrow> pool \<noteq> [] \<Longrightarrow> avail \<noteq> [] \<Longrightarrow>
      \<forall>i \<in> set avail. i < length (locationGroups st) \<and> locations (locationGroups st ! i) \<noteq> [] \<Longrightarrow>
      valid_charLocations (charLocations (game st)) \<Longrightarrow>
      card (set pool) \<le> limit \<Longrightarrow> card (set pool) \<le> fuel \<Longrightarrow>
      \<exists>st'. placementLoop rnd limit fuel avail (new_frame pool) st = Returned (True, st')"
    and inv: "solver_inv pool st"
    and v: "valid_charLocations (charLocations (game st))"
    and le: "card (set pool) \<le> limit" "card (set pool) \<le> fuel"
  shows "\<exists>st'. determineKeyItemPlacement_impl rnd limit fuel pool st = Returned (True, st')"
proof (cases "pool = []")
  case True
  then show ?thesis by (simp add: determineKeyItemPlacement_impl.simps)
next
  case False
  from getAvailableLocations_total [OF v] obtain avail st1 where
    av: "getAvailableLocations st = Inr (avail, st1)"
    and cl: "charLocations (game st1) = charLocations (game st)"
    by blast
  note ap = avail_props [OF inv False av]
  from v cl have v1: "valid_charLocations (charLocations (game st1))" by simp
  from loop [OF ap(1) False ap(2) ap(3) v1 le] av False ap(2) show ?thesis
    by (simp add: determineKeyItemPlacement_impl.simps)
qed

lemma impl_total:
  "(\<forall>limit pool st. solver_inv pool st \<longrightarrow> valid_charLocations (charLocations (game st)) \<longrightarrow>
      card (set pool) \<le> limit \<longrightarrow> card (set pool) \<le> fuel \<longrightarrow>
      (\<exists>st'. determineKeyItemPlacement_impl rnd limit fuel pool st = Returned (True, st'))) \<and>
   (\<forall>limit avail pool st. solver_inv pool st \<longrightarrow> pool \<noteq> [] \<longrightarrow> avail \<noteq> [] \<longrightarrow>
      (\<forall>i \<in> set avail. i < length (locationGroups st) \<and> locations (locationGroups st ! i) \<noteq> []) \<longrightarrow>
      valid_charLocations (charLocations (game st)) \<longrightarrow>
      card (set pool) \<le> limit \<longrightarrow> card (set pool) \<le> fuel \<longrightarrow>
      (\<exists>st'. placementLoop rnd limit fuel avail (new_frame pool) st = Returned (True, st')))"
proof (induction fuel)
  case 0
  have "\<exists>st'. placementLoop rnd limit 0 avail (new_frame pool) st = Returned (True, st')"
    if "pool \<noteq> []" "card (set pool) \<le> 0" for limit avail pool st
    using that by simp
  with impl_from_loop_total [where rnd = rnd and fuel = 0] show ?case by blast
next
  case (Suc fuel)
  then have impl: "\<And>limit pool st. solver_inv pool st \<Longrightarrow>
      valid_charLocations (charLocations (game st)) \<Longrightarrow>
      card (set pool) \<le> limit \<Longrightarrow> card (set pool) \<le> fuel \<Longrightarrow>
      \<exists>st'. determineKeyItemPlacement_impl rnd limit fuel pool st = Returned (True, st')"
    by blast
  have loopS: "\<exists>st'. placementLoop rnd limit (Suc fuel) avail (new_frame pool) st = Returned (True, st')"
    if inv: "solver_inv pool st" and ne: "pool \<noteq> []" and av: "avail \<noteq> []"
      "\<forall>i \<in> set avail. i < length (locationGroups st) \<and> locations (locationGroups st ! i) \<noteq> []"
      and v: "valid_charLocations (charLocations (game st))"
      and le: "card (set pool) \<le> limit" "card (set pool) \<le> Suc fuel"
    for limit avail pool st
  proof -
    from placementStep_first [OF inv ne av, of rnd] obtain fr1 st1 where
      step: "placementStep rnd avail (new_frame pool) st = Inr (fr1, st1)"
      and inv1: "solver_inv (remainingKeyItems fr1) st1"
      and less: "card (set (remainingKeyItems fr1)) < card (set pool)"
      and cl: "charLocations (game st1) = charLocations (game st)"
      by blast
    from less le obtain limit' where limit: "limit = Suc limit'"
      and le1: "card (set (remainingKeyItems fr1)) \<le> limit'"
      by (cases limit) auto
    from less le have le2: "card (set (remainingKeyItems fr1)) \<le> fuel" by simp
    from v cl have v1: "valid_charLocations (charLocations (game st1))" by simp
    from impl [OF inv1 v1 le1 le2] obtain st' where
      "determineKeyItemPlacement_impl rnd limit' fuel (remainingKeyItems fr1) st1 = Returned (True, st')"
      by blast
    with step limit show ?thesis by simp
  qed
  with impl_from_loop_total [where rnd = rnd and fuel = "Suc fuel"] show ?case by blast
qed


subsection \<open>The registry of the source\<close>

text \<open>
  All weights of the registry are at least 1, no two of its locations have the same
  pointer (so no two are equal), and the group of the Denadoro Mountains is always
  accessible and has 20 locations.
\<close>

lemmas registry_defs =
  initLocationGroups_def darkagesLocations_def fionaShrineLocations_def
  futureOpenLocations_def futureSewersLocations_def futureLabLocations_def
  genoDomeLocations_def factoryLocations_def giantsClawLocations_def
  northernRuinsLocations_def guardiaTreasuryLocations_def earlyOzziesFortLocations_def
  lateOzziesFortLocations_def openLocations_def openKeys_def heckranLocations_def
  guardiaCastleLocations_def cathedralLocations_def denadoroLocations_def
  sealedLocations_def magicCaveLocations_def prehistoryForestMazeLocations_def
  prehistoryReptiteLocations_def prehistoryDactylNest_def melchiorsRefinementslocations_def
  frogsBurrowLocation_def

lemma registry_weights: "\<forall>g \<in> set (initLocationGroups decay02 decay03). 1 \<le> weight g"
  by (simp add: registry_defs LocationGroup_init_def weight_addLocation)

lemma registry_pointers_distinct:
  "distinct (map getPointer (all_locations (initLocationGroups decay02 decay03)))"
  by (simp add: all_locations_def registry_defs LocationGroup_init_def addLocation_def
      getPointer_def)

lemma registry_locations_distinct:
  "distinct (all_locations (initLocationGroups decay02 decay03))"
  using registry_pointers_distinct [of decay02 decay03] by (simp add: distinct_map)

lemma registry_open_group:
  "denadoroLocations \<in> set (initLocationGroups decay02 decay03) \<and>
   (\<forall>gm. accessRule denadoroLocations gm) \<and> length (locations denadoroLocations) = 20"
  by (simp add: initLocationGroups_def)
     (simp add: denadoroLocations_def LocationGroup_init_def addLocation_def)

lemma set_initialKeyItemList: "set initialKeyItemList = UNIV"
  by (auto simp: initialKeyItemList_def KeyItems_UNIV all_KeyItems_def)

lemma determineKeyItemPlacement_eq:
  "determineKeyItemPlacement decay02 decay03 rnd limit fuel charlocs lockedCh earlyPend =
     determineKeyItemPlacement_impl rnd limit fuel initialKeyItemList
       \<lparr>locationGroups = initLocationGroups decay02 decay03,
        game = setLockedCharacters (setEarlyPendant (Game_init charlocs) earlyPend) lockedCh,
        chosenLocations = [], keyItemOf = Map.empty, draws = 0\<rparr>"
  by (simp add: determineKeyItemPlacement_def getInitialKeyItems_eq)

lemma initial_state_inv:
  "solver_inv initialKeyItemList
     \<lparr>locationGroups = initLocationGroups decay02 decay03,
      game = setLockedCharacters (setEarlyPendant (Game_init charlocs) earlyPend) lockedCh,
      chosenLocations = [], keyItemOf = Map.empty, draws = 0\<rparr>"
proof -
  have "card (set initialKeyItemList) \<le> length (locations denadoroLocations)"
    using registry_open_group [of decay02 decay03]
    by (simp add: set_initialKeyItemList card_KeyItems)
  with registry_open_group [of decay02 decay03]
  have "\<exists>g \<in> set (initLocationGroups decay02 decay03).
      (\<forall>gm. accessRule g gm) \<and> card (set initialKeyItemList) \<le> length (locations g)"
    by blast
  then show ?thesis
    using registry_weights [of decay02 decay03] registry_locations_distinct [of decay02 decay03]
    by (simp add: solver_inv_def set_initialKeyItemList setLockedCharacters_def
        setEarlyPendant_def Game_init_def)
qed

text \<open>
  So the pool with which a call is entered in such a run holds exactly the variants that
  are not in the game, as the collapse of the pool assumes.
\<close>

lemma solver_inv_pool: "solver_inv pool st \<Longrightarrow> set pool = UNIV - keyItems (game st)"
  by (auto simp: solver_inv_def)

lemma solver_inv_final:
  assumes "solver_inv [] st"
  shows "length (chosenLocations st) = 15 \<and> distinct (chosenLocations st) \<and>
         (\<forall>l \<in> set (chosenLocations st). keyItemOf st l \<noteq> None) \<and>
         bij_betw (\<lambda>l. the (keyItemOf st l)) (set (chosenLocations st)) (UNIV :: KeyItems set) \<and>
         set (chosenLocations st) \<inter> set (all_locations (locationGroups st)) = {}"
proof -
  from assms obtain ks where d: "distinct (all_locations (locationGroups st) @ chosenLocations st)"
    and ks: "map (keyItemOf st) (chosenLocations st) = map Some ks" "distinct ks" "set ks = UNIV"
    by (auto simp: solver_inv_def)
  from ks(1) have len: "length (chosenLocations st) = length ks"
    by (metis length_map)
  from ks(2,3) have "length ks = 15"
    using distinct_card [of ks] by (simp add: card_KeyItems)
  with len have l15: "length (chosenLocations st) = 15" by simp
  have the_map: "map (\<lambda>l. the (keyItemOf st l)) (chosenLocations st) = ks"
  proof -
    have "map (\<lambda>l. the (keyItemOf st l)) (chosenLocations st)
            = map the (map (keyItemOf st) (chosenLocations st))" by simp
    also have "\<dots> = ks" unfolding ks(1) by (simp add: comp_def)
    finally show ?thesis .
  qed
  have some: "\<forall>l \<in> set (chosenLocations st). keyItemOf st l \<noteq> None"
  proof
    fix l assume "l \<in> set (chosenLocations st)"
    then have "keyItemOf st l \<in> set (map (keyItemOf st) (chosenLocations st))" by simp
    then show "keyItemOf st l \<noteq> None" unfolding ks(1) by auto
  qed
  have inj: "inj_on (\<lambda>l. the (keyItemOf st l)) (set (chosenLocations st))"
    using ks(2) the_map by (metis distinct_map)
  have img: "(\<lambda>l. the (keyItemOf st l)) ` set (chosenLocations st) = UNIV"
    using the_map ks(3) by (metis set_map)
  from inj img have "bij_betw (\<lambda>l. the (keyItemOf st l)) (set (chosenLocations st)) UNIV"
    by (simp add: bij_betw_def)
  with l15 d some show ?thesis by auto
qed

text \<open>
  C1. Whenever \<open>determineKeyItemPlacement\<close> returns the flag True (for every character
  mapping, both flags, every random source, recursion limit and fuel, and whatever the
  two decay functions compute), the returned list has 15 locations, no location twice,
  every location of it has a key item, and location to key item is a bijection from the
  locations of the list onto the 15 key items. No location of the list is in a group
  any more, as a location given back on backtracking would be.
\<close>

theorem placement_is_bijection:
  assumes "determineKeyItemPlacement decay02 decay03 rnd limit fuel charlocs lockedCh earlyPend
             = Returned (True, st')"
  shows "length (chosenLocations st') = 15 \<and> distinct (chosenLocations st') \<and>
         (\<forall>l \<in> set (chosenLocations st'). keyItemOf st' l \<noteq> None) \<and>
         bij_betw (\<lambda>l. the (keyItemOf st' l)) (set (chosenLocations st')) (UNIV :: KeyItems set) \<and>
         set (chosenLocations st') \<inter> set (all_locations (locationGroups st')) = {}"
proof -
  from assms have "determineKeyItemPlacement_impl rnd limit fuel initialKeyItemList
      \<lparr>locationGroups = initLocationGroups decay02 decay03,
       game = setLockedCharacters (setEarlyPendant (Game_init charlocs) earlyPend) lockedCh,
       chosenLocations = [], keyItemOf = Map.empty, draws = 0\<rparr> = Returned (True, st')"
    by (simp add: determineKeyItemPlacement_eq)
  with impl_correct [of rnd fuel] initial_state_inv have "solver_inv [] st'" by blast
  then show ?thesis by (rule solver_inv_final)
qed

text \<open>
  The hypothesis is met by every run with a valid character mapping: such a run returns
  True as soon as the recursion limit and the fuel are 15, because an always accessible
  group never runs out of locations and so no recursive call fails.
\<close>

lemma placement_succeeds:
  assumes "valid_charLocations charlocs" and "15 \<le> limit" and "15 \<le> fuel"
  shows "\<exists>st'. determineKeyItemPlacement decay02 decay03 rnd limit fuel charlocs lockedCh earlyPend
             = Returned (True, st')"
proof -
  let ?st = "\<lparr>locationGroups = initLocationGroups decay02 decay03,
       game = setLockedCharacters (setEarlyPendant (Game_init charlocs) earlyPend) lockedCh,
       chosenLocations = [], keyItemOf = Map.empty, draws = 0\<rparr>"
  have v: "valid_charLocations (charLocations (game ?st))"
    using assms(1) by (simp add: setLockedCharacters_def setEarlyPendant_def Game_init_def)
  have c: "card (set initialKeyItemList) \<le> limit" "card (set initialKeyItemList) \<le> fuel"
    using assms(2,3) by (simp_all add: set_initialKeyItemList card_KeyItems)
  from impl_total [where rnd = rnd and fuel = fuel] initial_state_inv [of decay02 decay03] v c
  have "\<exists>st'. determineKeyItemPlacement_impl rnd limit fuel initialKeyItemList ?st = Returned (True, st')"
    by blast
  then show ?thesis
    by (simp add: determineKeyItemPlacement_eq)
qed

lemma cx_charLocations_valid: "valid_charLocations cx_charLocations"
  by (simp add: valid_charLocations_def cx_charLocations_def)

theorem placement_is_bijection_witness:
  "\<exists>st'. determineKeyItemPlacement (\<lambda>w. w * 2 div 10) (\<lambda>w. w * 3 div 10) (\<lambda>i. 0) 15 15
            cx_charLocations False False = Returned (True, st') \<and>
     length (chosenLocations st') = 15 \<and> distinct (chosenLocations st') \<and>
     bij_betw (\<lambda>l. the (keyItemOf st' l)) (set (chosenLocations st')) (UNIV :: KeyItems set)"
proof -
  from placement_succeeds [OF cx_charLocations_valid, where limit = 15 and fuel = 15
      and ?decay02.0 = "\<lambda>w. w * 2 div 10" and ?decay03.0 = "\<lambda>w. w * 3 div 10"
      and rnd = "\<lambda>i. 0" and lockedCh = False and earlyPend = False]
  obtain st' where
    run: "determineKeyItemPlacement (\<lambda>w. w * 2 div 10) (\<lambda>w. w * 3 div 10) (\<lambda>i. 0) 15 15
            cx_charLocations False False = Returned (True, st')"
    by auto
  from placement_is_bijection [OF run] run show ?thesis by blast
qed

section \<open>The depth of a run\<close>

text \<open>
  C9. Every pass of the loop hands the recursive call a pool with strictly fewer distinct
  variants than the frame has to place (its pool at entry: the variants of its pool
  together with the provisional one, a set that no iteration changes). So a call whose
  pool has at most \<open>limit\<close> distinct variants never exceeds a recursion limit of
  \<open>limit\<close> nested calls, and \<open>determineKeyItemPlacement\<close>, whose pool starts with 15
  variants, never nests deeper than 15.
\<close>

theorem recursion_depth_bounded:
  "(placementStep rnd avail fr st = Inr (fr', st') \<longrightarrow> frame_fresh fr \<longrightarrow>
      card (set (remainingKeyItems fr')) < card (frame_variants fr) \<and>
      frame_variants fr' = frame_variants fr \<and> frame_fresh fr') \<and>
   (card (set pool) \<le> limit \<longrightarrow>
      determineKeyItemPlacement_impl rnd limit fuel pool st0 \<noteq> Raised RecursionError) \<and>
   (15 \<le> limit \<longrightarrow>
      determineKeyItemPlacement decay02 decay03 rnd limit fuel charlocs lockedCh earlyPend
        \<noteq> Raised RecursionError)"
proof -
  have a: "card (set pool) \<le> limit \<Longrightarrow>
      determineKeyItemPlacement_impl rnd limit fuel pool st0 \<noteq> Raised RecursionError"
    for pool st0
    using no_RecursionError [of rnd fuel] by blast
  have "15 \<le> limit \<Longrightarrow> card (set initialKeyItemList) \<le> limit"
    by (simp add: set_initialKeyItemList card_KeyItems)
  then have b: "15 \<le> limit \<Longrightarrow>
      determineKeyItemPlacement decay02 decay03 rnd limit fuel charlocs lockedCh earlyPend
        \<noteq> Raised RecursionError"
    using a by (simp add: determineKeyItemPlacement_eq)
  from a b step_variants [of rnd avail fr st fr' st'] show ?thesis by blast
qed

theorem recursion_depth_bounded_witness:
  "card (set cx_pool) = 2 \<and>
   determineKeyItemPlacement_impl (\<lambda>i. 0) 2 3 cx_pool cx_start \<noteq> Raised RecursionError \<and>
   determineKeyItemPlacement_impl (\<lambda>i. 0) 1 3 cx_pool cx_start = Raised RecursionError \<and>
   frame_fresh cx_retry_frame \<and> card (frame_variants cx_retry_frame) = 2 \<and>
   (\<exists>fr' st'. placementStep (\<lambda>i. 0) [0] cx_retry_frame cx_retry_state = Inr (fr', st') \<and>
      card (set (remainingKeyItems fr')) < card (frame_variants cx_retry_frame)) \<and>
   determineKeyItemPlacement (\<lambda>w. w * 2 div 10) (\<lambda>w. w * 3 div 10) (\<lambda>i. 0) 15 15
      cx_charLocations False False \<noteq> Raised RecursionError"
proof -
  have c: "card (set cx_pool) = 2" by (simp add: cx_pool_def)
  have f: "frame_fresh cx_retry_frame" "card (frame_variants cx_retry_frame) = 2"
    by (simp_all add: frame_fresh_def frame_variants_def cx_retry_frame_def)
  obtain fr' st' where
    step: "placementStep (\<lambda>i. 0) [0] cx_retry_frame cx_retry_state = Inr (fr', st')"
    by (simp add: cx_defs solver_defs)
  have low: "determineKeyItemPlacement_impl (\<lambda>i. 0) 1 3 cx_pool cx_start = Raised RecursionError"
    by (simp add: cx_defs solver_defs insert_commute placementLoop_numeral)
  have top: "determineKeyItemPlacement (\<lambda>w. w * 2 div 10) (\<lambda>w. w * 3 div 10) (\<lambda>i. 0) 15 15
      cx_charLocations False False \<noteq> Raised RecursionError"
    using recursion_depth_bounded [where limit = 15 and fuel = 15 and rnd = "\<lambda>i. 0"
        and ?decay02.0 = "\<lambda>w. w * 2 div 10" and ?decay03.0 = "\<lambda>w. w * 3 div 10"
        and charlocs = cx_charLocations and lockedCh = False and earlyPend = False]
    by simp
  from recursion_depth_bounded [where rnd = "\<lambda>i. 0" and avail = "[0]" and fr = cx_retry_frame
      and st = cx_retry_state and fr' = fr' and st' = st' and pool = cx_pool and limit = 2
      and fuel = 3 and ?st0.0 = cx_start]
    c f step low top
  show ?thesis by auto
qed


end
